theory Spec2Isabelle
  imports Complex_Main "HOL-Library.Sublist"
begin

section \<open>Values of the program\<close>

text \<open>
  The bar series of \<^verbatim>\<open>rsi.py\<close> are pandas columns of 64-bit floats. A float is
  modelled by its special values and, when finite, by the real number it denotes. Finite
  arithmetic is exact (rounding error and overflow of finite operands are not represented),
  and the two zeros are one value. Comparisons and the treatment of NaN and of division by
  zero follow IEEE 754, which is what numpy scalars implement: no exception is raised, a
  division by zero yields an infinity or NaN.
\<close>

datatype pyfloat = NaN | NInf | Fin real | PInf

text \<open>\<^verbatim>\<open>a < b\<close> on floats: false as soon as one side is NaN.\<close>

fun flt :: "pyfloat \<Rightarrow> pyfloat \<Rightarrow> bool" where
  "flt NaN _ = False"
| "flt _ NaN = False"
| "flt PInf _ = False"
| "flt _ NInf = False"
| "flt NInf _ = True"
| "flt _ PInf = True"
| "flt (Fin a) (Fin b) = (a < b)"

text \<open>\<^verbatim>\<open>a > b\<close> on floats.\<close>

definition fgt :: "pyfloat \<Rightarrow> pyfloat \<Rightarrow> bool" where
  "fgt a b = flt b a"

definition is_finite :: "pyfloat \<Rightarrow> bool" where
  "is_finite x = (case x of Fin _ \<Rightarrow> True | _ \<Rightarrow> False)"

text \<open>\<^verbatim>\<open>a - b\<close>.\<close>

fun fsub :: "pyfloat \<Rightarrow> pyfloat \<Rightarrow> pyfloat" where
  "fsub NaN _ = NaN"
| "fsub _ NaN = NaN"
| "fsub PInf PInf = NaN"
| "fsub NInf NInf = NaN"
| "fsub PInf _ = PInf"
| "fsub NInf _ = NInf"
| "fsub _ PInf = NInf"
| "fsub _ NInf = PInf"
| "fsub (Fin a) (Fin b) = Fin (a - b)"

text \<open>\<^verbatim>\<open>a / b\<close>: a finite non-zero value divided by zero is an infinity, zero by zero is NaN.\<close>

fun fdiv :: "pyfloat \<Rightarrow> pyfloat \<Rightarrow> pyfloat" where
  "fdiv NaN _ = NaN"
| "fdiv _ NaN = NaN"
| "fdiv PInf (Fin b) = (if 0 \<le> b then PInf else NInf)"
| "fdiv NInf (Fin b) = (if 0 \<le> b then NInf else PInf)"
| "fdiv PInf _ = NaN"
| "fdiv NInf _ = NaN"
| "fdiv (Fin a) PInf = Fin 0"
| "fdiv (Fin a) NInf = Fin 0"
| "fdiv (Fin a) (Fin b) =
     (if b = 0 then (if 0 < a then PInf else if a < 0 then NInf else NaN)
      else Fin (a / b))"

text \<open>\<^verbatim>\<open>a * b\<close>.\<close>

fun fmul :: "pyfloat \<Rightarrow> pyfloat \<Rightarrow> pyfloat" where
  "fmul NaN _ = NaN"
| "fmul _ NaN = NaN"
| "fmul (Fin a) (Fin b) = Fin (a * b)"
| "fmul (Fin a) PInf = (if a = 0 then NaN else if 0 < a then PInf else NInf)"
| "fmul (Fin a) NInf = (if a = 0 then NaN else if 0 < a then NInf else PInf)"
| "fmul PInf (Fin b) = (if b = 0 then NaN else if 0 < b then PInf else NInf)"
| "fmul NInf (Fin b) = (if b = 0 then NaN else if 0 < b then NInf else PInf)"
| "fmul PInf PInf = PInf"
| "fmul NInf NInf = PInf"
| "fmul PInf NInf = NInf"
| "fmul NInf PInf = NInf"

text \<open>Rounding a real to the nearest integer, a tie going to the even neighbour.\<close>

definition round_half_even :: "real \<Rightarrow> int" where
  "round_half_even y =
     (let f = \<lfloor>y\<rfloor>; d = y - of_int f
      in if d < 1 / 2 then f else if 1 / 2 < d then f + 1
         else if even f then f else f + 1)"

text \<open>\<^verbatim>\<open>round(x, 2)\<close>: NaN and the infinities are returned as they are.\<close>

fun round2 :: "pyfloat \<Rightarrow> pyfloat" where
  "round2 (Fin x) = Fin (of_int (round_half_even (x * 100)) / 100)"
| "round2 x = x"

text \<open>Truth value of a float in a condition: zero is false, everything else (NaN too) is true.\<close>

fun truthy :: "pyfloat \<Rightarrow> bool" where
  "truthy (Fin x) = (x \<noteq> 0)"
| "truthy _ = True"

section \<open>Exceptions\<close>

datatype py_error = IndexError | KeyError | ValueError | CallbackError

definition ebind :: "py_error + 'a \<Rightarrow> ('a \<Rightarrow> py_error + 'b) \<Rightarrow> py_error + 'b" where
  "ebind m f = (case m of Inl e \<Rightarrow> Inl e | Inr a \<Rightarrow> f a)"

text \<open>
  Positional indexing (\<^verbatim>\<open>series.iloc[i]\<close>, \<^verbatim>\<open>xs[i]\<close>): a negative index counts from
  the end, an index outside the sequence raises IndexError.
\<close>

definition iloc :: "'a list \<Rightarrow> int \<Rightarrow> py_error + 'a" where
  "iloc xs i =
     (let n = int (length xs); k = (if i < 0 then n + i else i)
      in if 0 \<le> k \<and> k < n then Inr (xs ! nat k) else Inl IndexError)"

text \<open>
  \<^verbatim>\<open>all(...)\<close> over a generator: the elements are evaluated in order, the first false one
  ends the evaluation, an exception in an element is raised.
\<close>

fun py_all :: "(py_error + bool) list \<Rightarrow> py_error + bool" where
  "py_all [] = Inr True"
| "py_all (Inl e # _) = Inl e"
| "py_all (Inr False # _) = Inr False"
| "py_all (Inr True # rs) = py_all rs"

section \<open>Pivot lows\<close>

text \<open>\<^verbatim>\<open>series.iloc[i] < series.iloc[k]\<close>\<close>

definition iloc_lt :: "pyfloat list \<Rightarrow> int \<Rightarrow> int \<Rightarrow> py_error + bool" where
  "iloc_lt series i k =
     ebind (iloc series i) (\<lambda>a. ebind (iloc series k) (\<lambda>b. Inr (flt a b)))"

text \<open>The condition of the \<^verbatim>\<open>if\<close> in \<^verbatim>\<open>find_pivot_lows\<close>; \<^verbatim>\<open>and\<close> evaluates its right side only
  when the left side is true.\<close>

definition pivot_cond :: "pyfloat list \<Rightarrow> int \<Rightarrow> int \<Rightarrow> int \<Rightarrow> py_error + bool" where
  "pivot_cond series left right i =
     ebind (py_all (map (\<lambda>j. iloc_lt series i (i - j)) [1..left]))
       (\<lambda>a. if a then py_all (map (\<lambda>j. iloc_lt series i (i + j)) [1..right])
            else Inr False)"

text \<open>The \<^verbatim>\<open>for i in range(...)\<close> loop, \<^verbatim>\<open>pivots\<close> being the list built so far.\<close>

fun pivots_loop :: "pyfloat list \<Rightarrow> int \<Rightarrow> int \<Rightarrow> int list \<Rightarrow> int list \<Rightarrow> py_error + int list" where
  "pivots_loop series left right [] pivots = Inr pivots"
| "pivots_loop series left right (i # rest) pivots =
     ebind (pivot_cond series left right i)
       (\<lambda>c. pivots_loop series left right rest (if c then pivots @ [i] else pivots))"

text \<open>\<^verbatim>\<open>range(left, len(series) - right)\<close> is the integer interval from \<open>left\<close> to
  \<open>len - right - 1\<close>.\<close>

definition find_pivot_lows :: "pyfloat list \<Rightarrow> int \<Rightarrow> int \<Rightarrow> py_error + int list" where
  "find_pivot_lows series left right =
     pivots_loop series left right [left .. int (length series) - right - 1] []"

section \<open>Bar series\<close>

type_synonym symbol = string
type_synonym date = nat

text \<open>One row of the frame that \<^verbatim>\<open>ticker.history\<close> returns; \<open>bdate\<close> is its index entry.\<close>

record bar =
  bdate :: date
  Open :: pyfloat
  High :: pyfloat
  Low :: pyfloat
  Close :: pyfloat
  Volume :: int

text \<open>A data frame: the fetched rows and the \<^verbatim>\<open>'rsi'\<close> column, absent until \<^verbatim>\<open>add_rsi\<close>
  has run.\<close>

record dataframe =
  rows :: "bar list"
  rsi :: "pyfloat list option"

definition col :: "(bar \<Rightarrow> 'a) \<Rightarrow> dataframe \<Rightarrow> 'a list" where
  "col f df = map f (rows df)"

text \<open>\<^verbatim>\<open>data['rsi']\<close>: KeyError when the column does not exist.\<close>

definition rsi_col :: "dataframe \<Rightarrow> py_error + pyfloat list" where
  "rsi_col df = (case rsi df of None \<Rightarrow> Inl KeyError | Some c \<Rightarrow> Inr c)"

section \<open>Bullish divergence\<close>

text \<open>One pass of the loop body of \<^verbatim>\<open>check_bullish_divergence\<close> for the position \<open>i\<close>:
  the flag and the current pivot.\<close>

definition divergence_at :: "dataframe \<Rightarrow> int list \<Rightarrow> int \<Rightarrow> py_error + (bool \<times> int)" where
  "divergence_at data pivot_lows i =
     ebind (iloc pivot_lows i) (\<lambda>curr.
     ebind (iloc pivot_lows (i - 1)) (\<lambda>prev.
     ebind (rsi_col data) (\<lambda>r.
     ebind (iloc r curr) (\<lambda>rc.
     ebind (iloc r prev) (\<lambda>rp.
     ebind (iloc (col Low data) curr) (\<lambda>lc.
     ebind (iloc (col Low data) prev) (\<lambda>lp.
       Inr (fgt rc rp \<and> flt lc lp, curr))))))))"

fun divergence_loop :: "dataframe \<Rightarrow> int list \<Rightarrow> int list \<Rightarrow> int list \<Rightarrow> py_error + int list" where
  "divergence_loop data pivot_lows [] divergences = Inr divergences"
| "divergence_loop data pivot_lows (i # rest) divergences =
     ebind (divergence_at data pivot_lows i)
       (\<lambda>(flag, curr). divergence_loop data pivot_lows rest
            (if flag then divergences @ [curr] else divergences))"

definition check_bullish_divergence :: "dataframe \<Rightarrow> int list \<Rightarrow> py_error + int list" where
  "check_bullish_divergence data pivot_lows =
     divergence_loop data pivot_lows [1 .. int (length pivot_lows) - 1] []"

section \<open>The cache and the pipeline\<close>

text \<open>
  A data frame is an object that several names refer to: the value that \<^verbatim>\<open>download_data\<close>
  returns is the object stored in \<^verbatim>\<open>_cache_store\<close> and in the memo tables of
  \<^verbatim>\<open>lru_cache\<close>. The objects therefore live in a store (\<open>heap\<close>), and the caches hold
  references. \<open>fetch_log\<close> records each call of \<^verbatim>\<open>ticker.history\<close>, the external fetch,
  and \<open>rsi_calls\<close> counts the computations of the oscillator; the program reads neither.
\<close>

type_synonym ref = nat

record state =
  cache_store :: "symbol \<rightharpoonup> ref"
  cache_date :: "date option"
  lru_download :: "symbol \<rightharpoonup> ref"
  lru_preprocessed :: "symbol \<rightharpoonup> ref \<times> int list"
  heap :: "ref \<Rightarrow> dataframe"
  next_ref :: ref
  fetch_log :: "symbol list"
  rsi_calls :: nat

text \<open>The state of the module after import: both globals and both memo tables empty.\<close>

definition init_state :: state where
  "init_state = \<lparr>cache_store = Map.empty, cache_date = None, lru_download = Map.empty,
     lru_preprocessed = Map.empty, heap = (\<lambda>_. \<lparr>rows = [], rsi = None\<rparr>), next_ref = 0,
     fetch_log = [], rsi_calls = 0\<rparr>"

definition rsi_period :: int where
  "rsi_period = 14"

definition pivot_lookback :: int where
  "pivot_lookback = 5"

text \<open>
  The body of \<^verbatim>\<open>download_data\<close>. \<open>history\<close> is the data provider
  (\<^verbatim>\<open>yf.Ticker(symbol).history(period='1y')\<close>) and \<open>today\<close> the value that
  \<^verbatim>\<open>datetime.now().date()\<close> returns. A frame that comes back empty is not stored anywhere,
  so no object is allocated for it.
\<close>

definition download_data_body ::
  "(symbol \<Rightarrow> bar list) \<Rightarrow> date \<Rightarrow> symbol \<Rightarrow> state \<Rightarrow> (py_error + ref) \<times> state" where
  "download_data_body history today symbol st =
     (let st1 = (if cache_date st \<noteq> Some today
                 then st\<lparr>cache_store := Map.empty, cache_date := Some today\<rparr> else st)
      in case cache_store st1 symbol of
           Some r \<Rightarrow> (Inr r, st1)
         | None \<Rightarrow>
            (let data = \<lparr>rows = history symbol, rsi = None\<rparr>;
                 st2 = st1\<lparr>fetch_log := fetch_log st1 @ [symbol]\<rparr>
             in if rows data = [] then (Inl ValueError, st2)
                else (let r = next_ref st2
                      in (Inr r, st2\<lparr>cache_store := (cache_store st2)(symbol \<mapsto> r),
                                      heap := (heap st2)(r := data),
                                      next_ref := Suc r\<rparr>))))"

text \<open>\<^verbatim>\<open>@lru_cache(maxsize=None)\<close> around it: a symbol seen before is answered from the memo
  table and the body does not run; a call that raises is not memoised.\<close>

definition download_data ::
  "(symbol \<Rightarrow> bar list) \<Rightarrow> date \<Rightarrow> symbol \<Rightarrow> state \<Rightarrow> (py_error + ref) \<times> state" where
  "download_data history today symbol st =
     (case lru_download st symbol of
        Some r \<Rightarrow> (Inr r, st)
      | None \<Rightarrow>
         (case download_data_body history today symbol st of
            (Inl e, st1) \<Rightarrow> (Inl e, st1)
          | (Inr r, st1) \<Rightarrow> (Inr r, st1\<lparr>lru_download := (lru_download st1)(symbol \<mapsto> r)\<rparr>)))"

text \<open>\<^verbatim>\<open>add_rsi\<close> assigns the column to the object it was given and returns that object.
  \<open>rsi_indicator\<close> stands for \<^verbatim>\<open>ta.momentum.RSIIndicator(..., window=period).rsi()\<close>.\<close>

definition add_rsi ::
  "(int \<Rightarrow> pyfloat list \<Rightarrow> pyfloat list) \<Rightarrow> ref \<Rightarrow> int \<Rightarrow> state \<Rightarrow> ref \<times> state" where
  "add_rsi rsi_indicator data period st =
     (data, st\<lparr>heap := (heap st)
                 (data := (heap st data)\<lparr>rsi := Some (rsi_indicator period (col Close (heap st data)))\<rparr>),
                rsi_calls := Suc (rsi_calls st)\<rparr>)"

text \<open>The two detection statements, on the frame that carries the oscillator column:
  \<^verbatim>\<open>find_pivot_lows(data['rsi'], pivot_lookback, pivot_lookback)\<close> and
  \<^verbatim>\<open>check_bullish_divergence(data, pivot_lows)\<close>.\<close>

definition detect_divergences :: "dataframe \<Rightarrow> py_error + int list" where
  "detect_divergences data =
     ebind (rsi_col data) (\<lambda>series.
     ebind (find_pivot_lows series pivot_lookback pivot_lookback) (\<lambda>pivot_lows.
       check_bullish_divergence data pivot_lows))"

text \<open>The four pipeline statements that \<^verbatim>\<open>get_preprocessed_data\<close> and
  \<^verbatim>\<open>scan_for_today_divergences\<close> both run: download, oscillator, pivots, divergences.\<close>

definition run_pipeline ::
  "(int \<Rightarrow> pyfloat list \<Rightarrow> pyfloat list) \<Rightarrow> (symbol \<Rightarrow> bar list) \<Rightarrow> date \<Rightarrow> symbol \<Rightarrow> state
     \<Rightarrow> (py_error + ref \<times> int list) \<times> state" where
  "run_pipeline rsi_indicator history today symbol st =
     (case download_data history today symbol st of
        (Inl e, st1) \<Rightarrow> (Inl e, st1)
      | (Inr d, st1) \<Rightarrow>
         (let (data, st2) = add_rsi rsi_indicator d rsi_period st1
          in (ebind (detect_divergences (heap st2 data)) (\<lambda>divergences.
                Inr (data, divergences)), st2)))"

text \<open>\<^verbatim>\<open>get_preprocessed_data\<close> with its \<^verbatim>\<open>lru_cache\<close>.\<close>

definition get_preprocessed_data ::
  "(int \<Rightarrow> pyfloat list \<Rightarrow> pyfloat list) \<Rightarrow> (symbol \<Rightarrow> bar list) \<Rightarrow> date \<Rightarrow> symbol \<Rightarrow> state
     \<Rightarrow> (py_error + ref \<times> int list) \<times> state" where
  "get_preprocessed_data rsi_indicator history today symbol st =
     (case lru_preprocessed st symbol of
        Some v \<Rightarrow> (Inr v, st)
      | None \<Rightarrow>
         (case run_pipeline rsi_indicator history today symbol st of
            (Inl e, st1) \<Rightarrow> (Inl e, st1)
          | (Inr v, st1) \<Rightarrow> (Inr v, st1\<lparr>lru_preprocessed := (lru_preprocessed st1)(symbol \<mapsto> v)\<rparr>)))"

section \<open>Scanning for today's divergences\<close>

text \<open>The dictionary that \<^verbatim>\<open>scan_for_today_divergences\<close> builds for one divergence. The
  \<^verbatim>\<open>'date'\<close> entry is kept as the date, not as its \<^verbatim>\<open>strftime\<close> text.\<close>

record today_result =
  t_symbol :: symbol
  t_date :: date
  t_rsi :: pyfloat
  t_close :: pyfloat
  t_low :: pyfloat
  t_high :: pyfloat
  t_volume :: int

text \<open>The body of \<^verbatim>\<open>for idx in divergences\<close>: the record to append, if any.
  \<^verbatim>\<open>is_today\<close> compares the index date with the clock.\<close>

definition today_row ::
  "symbol \<Rightarrow> dataframe \<Rightarrow> date \<Rightarrow> int \<Rightarrow> py_error + today_result option" where
  "today_row symbol data today idx =
     ebind (iloc (col bdate data) idx) (\<lambda>index_date.
       if index_date = today then
         ebind (rsi_col data) (\<lambda>series.
         ebind (iloc series idx) (\<lambda>rsi_val.
         ebind (iloc (col Close data) idx) (\<lambda>c.
         ebind (iloc (col Low data) idx) (\<lambda>l.
         ebind (iloc (col High data) idx) (\<lambda>h.
         ebind (iloc (col Volume data) idx) (\<lambda>v.
           Inr (Some \<lparr>t_symbol = symbol, t_date = index_date, t_rsi = round2 rsi_val,
                       t_close = round2 c, t_low = round2 l, t_high = round2 h,
                       t_volume = v\<rparr>)))))))
       else Inr None)"

text \<open>The loop over the divergences. An exception leaves the loop; what was appended before
  it stays in the list.\<close>

fun today_loop ::
  "symbol \<Rightarrow> dataframe \<Rightarrow> date \<Rightarrow> int list \<Rightarrow> today_result list
     \<Rightarrow> (py_error + unit) \<times> today_result list" where
  "today_loop symbol data today [] results = (Inr (), results)"
| "today_loop symbol data today (idx # rest) results =
     (case today_row symbol data today idx of
        Inl e \<Rightarrow> (Inl e, results)
      | Inr None \<Rightarrow> today_loop symbol data today rest results
      | Inr (Some r) \<Rightarrow> today_loop symbol data today rest (results @ [r]))"

text \<open>The \<^verbatim>\<open>try\<close> block for one symbol: its outcome, the result list and the state after
  it.\<close>

definition today_try ::
  "(int \<Rightarrow> pyfloat list \<Rightarrow> pyfloat list) \<Rightarrow> (symbol \<Rightarrow> bar list) \<Rightarrow> date \<Rightarrow> symbol
     \<Rightarrow> today_result list \<Rightarrow> state \<Rightarrow> (py_error + unit) \<times> today_result list \<times> state" where
  "today_try rsi_indicator history today symbol results st =
     (case run_pipeline rsi_indicator history today symbol st of
        (Inl e, st1) \<Rightarrow> (Inl e, results, st1)
      | (Inr (data, divergences), st1) \<Rightarrow>
         (let (outcome, results1) = today_loop symbol (heap st1 data) today divergences results
          in (outcome, results1, st1)))"

text \<open>The loop over the companies; \<^verbatim>\<open>except Exception\<close> prints the error and the loop goes
  on with the next symbol.\<close>

fun today_symbols ::
  "(int \<Rightarrow> pyfloat list \<Rightarrow> pyfloat list) \<Rightarrow> (symbol \<Rightarrow> bar list) \<Rightarrow> date \<Rightarrow> symbol list
     \<Rightarrow> today_result list \<Rightarrow> state \<Rightarrow> today_result list \<times> state" where
  "today_symbols rsi_indicator history today [] results st = (results, st)"
| "today_symbols rsi_indicator history today (symbol # rest) results st =
     (case today_try rsi_indicator history today symbol results st of
        (Inl e, results1, st1) \<Rightarrow> today_symbols rsi_indicator history today rest results1 st1
      | (Inr _, results1, st1) \<Rightarrow> today_symbols rsi_indicator history today rest results1 st1)"

text \<open>\<open>trading_day\<close> is the answer of \<^verbatim>\<open>is_nse_trading_day()\<close>, \<open>companies\<close> the list
  \<^verbatim>\<open>UNIQUE_COMPANIES\<close>.\<close>

definition scan_for_today_divergences ::
  "(int \<Rightarrow> pyfloat list \<Rightarrow> pyfloat list) \<Rightarrow> (symbol \<Rightarrow> bar list) \<Rightarrow> date \<Rightarrow> bool
     \<Rightarrow> symbol list \<Rightarrow> state \<Rightarrow> today_result list \<times> state" where
  "scan_for_today_divergences rsi_indicator history today trading_day companies st =
     (if \<not> trading_day then ([], st)
      else today_symbols rsi_indicator history today companies [] st)"

section \<open>Divergences of a given date, with forward returns\<close>

text \<open>\<^verbatim>\<open>str\<close> of an integer, as the f-string of the return keys formats \<^verbatim>\<open>j\<close>.\<close>

definition digit_char :: "nat \<Rightarrow> char" where
  "digit_char d = char_of (of_char (CHR ''0'') + d)"

function str_nat :: "nat \<Rightarrow> string" where
  "str_nat n = (if n < 10 then [digit_char n] else str_nat (n div 10) @ [digit_char (n mod 10)])"
  by pat_completeness auto
termination
  by (relation "measure id") auto

declare str_nat.simps [simp del]

definition str_int :: "int \<Rightarrow> string" where
  "str_int i = (if i < 0 then CHR ''-'' # str_nat (nat (- i)) else str_nat (nat i))"

definition day_key :: "int \<Rightarrow> string" where
  "day_key j = ''Day+'' @ str_int j @ '' Return (%)''"

text \<open>The dictionary of one occurrence; \<open>future_returns\<close> holds the entries that
  \<^verbatim>\<open>**future_returns\<close> adds, a key bound to \<open>None\<close> being present with the value
  \<^verbatim>\<open>None\<close>.\<close>

record divergence_result =
  Symbol :: symbol
  Prev_Close :: "pyfloat option"
  Divergence_Close :: pyfloat
  Open_Next_Day :: "pyfloat option"
  RSI :: pyfloat
  Used_Price :: string
  Available_Future_Days :: int
  Is_Todays_Signal :: bool
  future_returns :: "string \<rightharpoonup> pyfloat option"

text \<open>The loop \<^verbatim>\<open>for j in range(1, 6)\<close>, on the pair of \<^verbatim>\<open>future_returns\<close> and
  \<^verbatim>\<open>available_days\<close>.\<close>

fun returns_loop ::
  "dataframe \<Rightarrow> int \<Rightarrow> pyfloat \<Rightarrow> int list \<Rightarrow> (string \<rightharpoonup> pyfloat option) \<times> int
     \<Rightarrow> py_error + (string \<rightharpoonup> pyfloat option) \<times> int" where
  "returns_loop data idx base_price [] acc = Inr acc"
| "returns_loop data idx base_price (j # js) (fr, available_days) =
     (if idx + j < int (length (rows data)) then
        ebind (iloc (col Close data) (idx + j)) (\<lambda>future_close.
          let ret = fmul (fdiv (fsub future_close base_price) base_price) (Fin 100)
          in returns_loop data idx base_price js (fr(day_key j \<mapsto> Some (round2 ret)), j))
      else returns_loop data idx base_price js (fr(day_key j \<mapsto> None), available_days))"

text \<open>The base price and its label.\<close>

definition select_base :: "bool \<Rightarrow> pyfloat option \<Rightarrow> pyfloat \<Rightarrow> pyfloat \<times> string" where
  "select_base use_next_open open_next_day close_today =
     (case open_next_day of
        Some p \<Rightarrow> if use_next_open then (p, ''Open Next Day'') else (close_today, ''Close'')
      | None \<Rightarrow> (close_today, ''Close''))"

text \<open>The body of \<^verbatim>\<open>for idx in divergences\<close> in \<^verbatim>\<open>get_bullish_divergence_results\<close>.\<close>

definition divergence_row ::
  "symbol \<Rightarrow> dataframe \<Rightarrow> date \<Rightarrow> bool \<Rightarrow> bool \<Rightarrow> int \<Rightarrow> py_error + divergence_result option" where
  "divergence_row symbol data target_date is_target_today use_next_open idx =
     ebind (iloc (col bdate data) idx) (\<lambda>index_date.
       if index_date = target_date then
         ebind (rsi_col data) (\<lambda>series.
         ebind (iloc series idx) (\<lambda>rsi_val.
         ebind (iloc (col Close data) idx) (\<lambda>close_today.
         ebind (if 0 < idx then ebind (iloc (col Close data) (idx - 1)) (\<lambda>c. Inr (Some c))
                else Inr None) (\<lambda>close_prev.
         ebind (if idx + 1 < int (length (rows data))
                then ebind (iloc (col Open data) (idx + 1)) (\<lambda>p. Inr (Some p))
                else Inr None) (\<lambda>open_next_day.
         let (base_price, price_basis) = select_base use_next_open open_next_day close_today
         in ebind (returns_loop data idx base_price [1..5] (Map.empty, 0))
              (\<lambda>(fr, available_days).
                Inr (Some \<lparr>Symbol = symbol,
                  Prev_Close = (case close_prev of
                                  None \<Rightarrow> None
                                | Some c \<Rightarrow> if truthy c then Some (round2 c) else None),
                  Divergence_Close = round2 close_today,
                  Open_Next_Day = map_option round2 open_next_day,
                  RSI = round2 rsi_val,
                  Used_Price = price_basis,
                  Available_Future_Days = available_days,
                  Is_Todays_Signal = is_target_today,
                  future_returns = fr\<rparr>)))))))
       else Inr None)"

fun divergence_rows ::
  "symbol \<Rightarrow> dataframe \<Rightarrow> date \<Rightarrow> bool \<Rightarrow> bool \<Rightarrow> int list \<Rightarrow> divergence_result list
     \<Rightarrow> (py_error + unit) \<times> divergence_result list" where
  "divergence_rows symbol data target_date is_target_today use_next_open [] results =
     (Inr (), results)"
| "divergence_rows symbol data target_date is_target_today use_next_open (idx # rest) results =
     (case divergence_row symbol data target_date is_target_today use_next_open idx of
        Inl e \<Rightarrow> (Inl e, results)
      | Inr None \<Rightarrow>
          divergence_rows symbol data target_date is_target_today use_next_open rest results
      | Inr (Some r) \<Rightarrow>
          divergence_rows symbol data target_date is_target_today use_next_open rest
            (results @ [r]))"

text \<open>The \<^verbatim>\<open>try\<close> block for one symbol.\<close>

definition results_try ::
  "(int \<Rightarrow> pyfloat list \<Rightarrow> pyfloat list) \<Rightarrow> (symbol \<Rightarrow> bar list) \<Rightarrow> date \<Rightarrow> date \<Rightarrow> bool
     \<Rightarrow> symbol \<Rightarrow> divergence_result list \<Rightarrow> state
     \<Rightarrow> (py_error + unit) \<times> divergence_result list \<times> state" where
  "results_try rsi_indicator history today target_date use_next_open symbol results st =
     (case get_preprocessed_data rsi_indicator history today symbol st of
        (Inl e, st1) \<Rightarrow> (Inl e, results, st1)
      | (Inr (data, divergences), st1) \<Rightarrow>
         (let (outcome, results1) =
                divergence_rows symbol (heap st1 data) target_date (target_date = today)
                  use_next_open divergences results
          in (outcome, results1, st1)))"

text \<open>The loop over \<^verbatim>\<open>enumerate(symbols)\<close>. The exception of a symbol is caught and printed;
  the progress callback runs outside the \<^verbatim>\<open>try\<close>, so an exception of the callback ends the
  whole call.\<close>

fun results_symbols ::
  "(int \<Rightarrow> pyfloat list \<Rightarrow> pyfloat list) \<Rightarrow> (symbol \<Rightarrow> bar list) \<Rightarrow> date \<Rightarrow> date \<Rightarrow> bool
     \<Rightarrow> (int \<Rightarrow> int \<Rightarrow> symbol \<Rightarrow> py_error + unit) option \<Rightarrow> int
     \<Rightarrow> (int \<times> symbol) list \<Rightarrow> divergence_result list \<Rightarrow> state
     \<Rightarrow> (py_error + divergence_result list) \<times> state" where
  "results_symbols rsi_indicator history today target_date use_next_open progress_callback total_n
     [] results st = (Inr results, st)"
| "results_symbols rsi_indicator history today target_date use_next_open progress_callback total_n
     ((i, symbol) # rest) results st =
     (case results_try rsi_indicator history today target_date use_next_open symbol results st of
        (outcome, results1, st1) \<Rightarrow>
          (case (case progress_callback of
                   None \<Rightarrow> Inr ()
                 | Some callback \<Rightarrow> callback (i + 1) total_n symbol) of
             Inl e \<Rightarrow> (Inl e, st1)
           | Inr _ \<Rightarrow>
               results_symbols rsi_indicator history today target_date use_next_open
                 progress_callback total_n rest results1 st1))"

text \<open>\<^verbatim>\<open>enumerate(symbols)\<close>\<close>

definition enumerate_py :: "'a list \<Rightarrow> (int \<times> 'a) list" where
  "enumerate_py xs = zip (map int [0..<length xs]) xs"

text \<open>\<open>symbols\<close> is the optional argument; \<^verbatim>\<open>None\<close> and the empty list both select
  \<open>companies\<close>, the list \<^verbatim>\<open>UNIQUE_COMPANIES\<close>.\<close>

definition get_bullish_divergence_results ::
  "(int \<Rightarrow> pyfloat list \<Rightarrow> pyfloat list) \<Rightarrow> (symbol \<Rightarrow> bar list) \<Rightarrow> date \<Rightarrow> symbol list
     \<Rightarrow> date \<Rightarrow> symbol list option \<Rightarrow> (int \<Rightarrow> int \<Rightarrow> symbol \<Rightarrow> py_error + unit) option \<Rightarrow> bool
     \<Rightarrow> state \<Rightarrow> (py_error + divergence_result list) \<times> state" where
  "get_bullish_divergence_results rsi_indicator history today companies
     target_date symbols progress_callback use_next_open st =
     (let symbols1 = (case symbols of None \<Rightarrow> companies | Some [] \<Rightarrow> companies | Some l \<Rightarrow> l);
          total_n = int (length symbols1)
      in results_symbols rsi_indicator history today target_date use_next_open progress_callback
           total_n (enumerate_py symbols1) [] st)"

section \<open>Predicates of the specification\<close>

text \<open>The value at \<open>i\<close> is strictly below each of the \<open>left\<close> values before it and each of
  the \<open>right\<close> values after it, \<open>flt\<close> being the comparison of the floats.\<close>

definition window_min :: "pyfloat list \<Rightarrow> int \<Rightarrow> int \<Rightarrow> int \<Rightarrow> bool" where
  "window_min series left right i \<longleftrightarrow>
     (\<forall>j\<in>{1..left}. flt (series ! nat i) (series ! nat (i - j))) \<and>
     (\<forall>j\<in>{1..right}. flt (series ! nat i) (series ! nat (i + j)))"

text \<open>An index qualifies as a pivot low: it lies in \<open>[left, len - right)\<close> and is a strict
  minimum of its window.\<close>

definition spec_pivot_low :: "pyfloat list \<Rightarrow> int \<Rightarrow> int \<Rightarrow> int \<Rightarrow> bool" where
  "spec_pivot_low series left right i \<longleftrightarrow>
     left \<le> i \<and> i < int (length series) - right \<and> window_min series left right i"

text \<open>The divergence rule between a pivot \<open>c\<close> and the pivot \<open>p\<close> before it: the
  oscillator is strictly higher and the low price strictly lower.\<close>

definition spec_divergence :: "dataframe \<Rightarrow> pyfloat list \<Rightarrow> int \<Rightarrow> int \<Rightarrow> bool" where
  "spec_divergence data oscillator c p \<longleftrightarrow>
     fgt (oscillator ! nat c) (oscillator ! nat p) \<and>
     flt (Low (rows data ! nat c)) (Low (rows data ! nat p))"

text \<open>Every pivot index is a position of the oscillator column and of the frame.\<close>

definition pivots_in_range :: "dataframe \<Rightarrow> pyfloat list \<Rightarrow> int list \<Rightarrow> bool" where
  "pivots_in_range data oscillator pivot_lows \<longleftrightarrow>
     (\<forall>p\<in>set pivot_lows. 0 \<le> p \<and> p < int (length oscillator) \<and> p < int (length (rows data)))"

text \<open>The base price of the forward returns: the open of the next bar when that is asked for
  and the bar exists, the close of the divergence bar otherwise.\<close>

definition spec_base_price :: "dataframe \<Rightarrow> int \<Rightarrow> bool \<Rightarrow> pyfloat" where
  "spec_base_price data idx use_next_open =
     (if use_next_open \<and> idx + 1 < int (length (rows data))
      then Open (rows data ! nat (idx + 1)) else Close (rows data ! nat idx))"

text \<open>The percentage return of day \<open>idx + j\<close> against a base price, rounded to two
  decimals.\<close>

definition spec_return :: "dataframe \<Rightarrow> int \<Rightarrow> pyfloat \<Rightarrow> int \<Rightarrow> pyfloat" where
  "spec_return data idx base_price j =
     round2 (fmul (fdiv (fsub (Close (rows data ! nat (idx + j))) base_price) base_price)
               (Fin 100))"

text \<open>The slot of day \<open>j\<close>: the return when the bar exists, the value \<^verbatim>\<open>None\<close> otherwise.\<close>

definition spec_slot :: "dataframe \<Rightarrow> int \<Rightarrow> pyfloat \<Rightarrow> int \<Rightarrow> pyfloat option" where
  "spec_slot data idx base_price j =
     (if idx + j < int (length (rows data)) then Some (spec_return data idx base_price j)
      else None)"


text \<open>The index is a bar of the frame, the oscillator column exists and covers it, and the
  bar carries the target date: the conditions under which a divergence index is reported.\<close>

definition occurrence :: "dataframe \<Rightarrow> date \<Rightarrow> int \<Rightarrow> bool" where
  "occurrence data target_date idx \<longleftrightarrow>
     0 \<le> idx \<and> idx < int (length (rows data)) \<and>
     (case rsi data of None \<Rightarrow> False | Some series \<Rightarrow> idx < int (length series)) \<and>
     bdate (rows data ! nat idx) = target_date"

text \<open>No cache of the state holds an entry for the symbol that a call on the day \<open>today\<close>
  could read: neither memo table, and not the store unless it is about to be reset.\<close>

definition no_entry :: "date \<Rightarrow> state \<Rightarrow> symbol \<Rightarrow> bool" where
  "no_entry today st symbol \<longleftrightarrow>
     lru_download st symbol = None \<and> lru_preprocessed st symbol = None \<and>
     (cache_date st = Some today \<longrightarrow> cache_store st symbol = None)"

text \<open>What \<^verbatim>\<open>_cache_store\<close> holds once the daily reset of \<^verbatim>\<open>download_data\<close> has been applied.\<close>

definition effective_store :: "date \<Rightarrow> state \<Rightarrow> symbol \<rightharpoonup> ref" where
  "effective_store today st = (if cache_date st = Some today then cache_store st else Map.empty)"



text \<open>Every frame that exists in \<open>st\<close> exists in \<open>st'\<close> with the same bars, and with the
  oscillator column it had or the one that \<^verbatim>\<open>add_rsi(data, rsi_period)\<close> gives it.\<close>

definition bars_kept :: "(int \<Rightarrow> pyfloat list \<Rightarrow> pyfloat list) \<Rightarrow> state \<Rightarrow> state \<Rightarrow> bool" where
  "bars_kept rsi_indicator st st' \<longleftrightarrow>
     next_ref st \<le> next_ref st' \<and>
     (\<forall>r<next_ref st.
        rows (heap st' r) = rows (heap st r) \<and>
        (rsi (heap st' r) = rsi (heap st r) \<or>
         rsi (heap st' r) = Some (rsi_indicator rsi_period (col Close (heap st r)))))"

text \<open>The oscillator column is as long as the column it is computed from.\<close>

definition length_preserving :: "(int \<Rightarrow> pyfloat list \<Rightarrow> pyfloat list) \<Rightarrow> bool" where
  "length_preserving rsi_indicator \<longleftrightarrow>
     (\<forall>period closes. length (rsi_indicator period closes) = length closes)"

section \<open>The scans as folds\<close>

text \<open>One pass of the loop of \<^verbatim>\<open>scan_for_today_divergences\<close> over the companies, the
  exception of the symbol caught: from the result list and the state before the symbol to
  those after it.\<close>

definition today_step ::
  "(int \<Rightarrow> pyfloat list \<Rightarrow> pyfloat list) \<Rightarrow> (symbol \<Rightarrow> bar list) \<Rightarrow> date
     \<Rightarrow> today_result list \<times> state \<Rightarrow> symbol \<Rightarrow> today_result list \<times> state" where
  "today_step rsi_indicator history today acc symbol =
     (case today_try rsi_indicator history today symbol (fst acc) (snd acc) of
        (outcome, results1, st1) \<Rightarrow> (results1, st1))"


section \<open>Example inputs\<close>

text \<open>A bar whose four prices are the same value.\<close>

definition flat_bar :: "date \<Rightarrow> real \<Rightarrow> bar" where
  "flat_bar d x = \<lparr>bdate = d, Open = Fin x, High = Fin x, Low = Fin x, Close = Fin x,
                    Volume = 100\<rparr>"

definition example_frame :: dataframe where
  "example_frame = \<lparr>rows = [flat_bar 1 10, flat_bar 2 9, flat_bar 3 8, flat_bar 4 8],
                    rsi = Some [Fin 30, Fin 35, Fin 35, Fin 40]\<rparr>"

text \<open>A frame whose second bar closes at zero.\<close>

definition zero_close_frame :: dataframe where
  "zero_close_frame = \<lparr>rows = [flat_bar 1 5, flat_bar 2 0, flat_bar 3 7],
                       rsi = Some [NaN, Fin 40, Fin 50]\<rparr>"

text \<open>A bar with a close and a low of its own.\<close>

definition low_bar :: "date \<Rightarrow> real \<Rightarrow> real \<Rightarrow> bar" where
  "low_bar d c l = \<lparr>bdate = d, Open = Fin c, High = Fin c, Low = Fin l, Close = Fin c,
                     Volume = 100\<rparr>"

text \<open>Seventeen bars whose closes have strict minima at the indices 5 and 11, the second one
  higher in close and lower in low than the first.\<close>

definition good_bars :: "bar list" where
  "good_bars = [flat_bar 1 10, flat_bar 2 9, flat_bar 3 8, flat_bar 4 7, flat_bar 5 6,
                low_bar 6 1 (9 / 10),
                flat_bar 7 6, flat_bar 8 7, flat_bar 9 8, flat_bar 10 9, flat_bar 11 10,
                low_bar 12 2 (1 / 2),
                flat_bar 13 6, flat_bar 14 7, flat_bar 15 8, flat_bar 16 9, flat_bar 17 10]"

text \<open>A provider that has bars for one symbol only.\<close>

definition example_history :: "symbol \<Rightarrow> bar list" where
  "example_history symbol = (if symbol = ''GOOD'' then good_bars else [])"

text \<open>The same provider a day later, with one more bar.\<close>

definition next_day_history :: "symbol \<Rightarrow> bar list" where
  "next_day_history symbol = (if symbol = ''GOOD'' then good_bars @ [flat_bar 18 11] else [])"

text \<open>An oscillator that repeats the closes, used where an example needs a concrete one.\<close>

definition echo_rsi :: "int \<Rightarrow> pyfloat list \<Rightarrow> pyfloat list" where
  "echo_rsi period closes = closes"

text \<open>The state after the first download of the symbol that has bars.\<close>

definition loaded_state :: state where
  "loaded_state = snd (download_data example_history 17 ''GOOD'' init_state)"

text \<open>The state after a first query for that symbol on day 17.\<close>

definition queried_state :: state where
  "queried_state = snd (get_preprocessed_data echo_rsi example_history 17 ''GOOD'' init_state)"

text \<open>The state after a first query, on day 17, for a symbol that has no bars.\<close>

definition failed_state :: state where
  "failed_state = snd (get_preprocessed_data echo_rsi example_history 17 ''BAD'' init_state)"

section \<open>Pivot lows: correctness\<close>

lemma iloc_in_range: "0 \<le> i \<Longrightarrow> i < int (length xs) \<Longrightarrow> iloc xs i = Inr (xs ! nat i)"
  by (simp add: iloc_def)

lemma py_all_Inr: "py_all (map (\<lambda>j. Inr (f j)) js) = Inr (\<forall>j\<in>set js. f j)"
proof (induction js)
  case Nil
  then show ?case by simp
next
  case (Cons a js)
  then show ?case by (cases "f a") simp_all
qed

lemma py_all_map_cong:
  assumes "\<And>j. j \<in> set js \<Longrightarrow> g j = Inr (f j)"
  shows "py_all (map g js) = Inr (\<forall>j\<in>set js. f j)"
proof -
  have "map g js = map (\<lambda>j. Inr (f j)) js" using assms by simp
  then show ?thesis by (simp only: py_all_Inr)
qed

lemma pivot_cond_in_range:
  assumes "0 \<le> left" "0 \<le> right" "left \<le> i" "i < int (length series) - right"
  shows "pivot_cond series left right i = Inr (window_min series left right i)"
proof -
  have i: "iloc series i = Inr (series ! nat i)"
    using assms by (intro iloc_in_range) auto
  have L: "py_all (map (\<lambda>j. iloc_lt series i (i - j)) [1..left])
           = Inr (\<forall>j\<in>set [1..left]. flt (series ! nat i) (series ! nat (i - j)))"
    using assms i by (intro py_all_map_cong) (simp add: iloc_lt_def ebind_def iloc_in_range)
  have R: "py_all (map (\<lambda>j. iloc_lt series i (i + j)) [1..right])
           = Inr (\<forall>j\<in>set [1..right]. flt (series ! nat i) (series ! nat (i + j)))"
    using assms i by (intro py_all_map_cong) (simp add: iloc_lt_def ebind_def iloc_in_range)
  show ?thesis
    unfolding pivot_cond_def L R by (auto simp: ebind_def window_min_def)
qed

lemma pivots_loop_filter:
  assumes "0 \<le> left" "0 \<le> right"
    and "\<forall>i\<in>set is. left \<le> i \<and> i < int (length series) - right"
  shows "pivots_loop series left right is acc
         = Inr (acc @ filter (window_min series left right) is)"
  using assms(3)
proof (induction "is" arbitrary: acc)
  case Nil
  then show ?case by simp
next
  case (Cons i rest)
  have c: "pivot_cond series left right i = Inr (window_min series left right i)"
    using assms(1,2) Cons.prems by (intro pivot_cond_in_range) auto
  show ?case using Cons by (simp add: c ebind_def)
qed

lemma find_pivot_lows_filter:
  assumes "0 \<le> left" "0 \<le> right"
  shows "find_pivot_lows series left right
         = Inr (filter (window_min series left right) [left .. int (length series) - right - 1])"
  unfolding find_pivot_lows_def
  using pivots_loop_filter[OF assms, of "[left .. int (length series) - right - 1]" series "[]"]
  by simp

lemma flt_irrefl: "\<not> flt x x"
  by (cases x) auto

lemma flt_not_nan: "flt a b \<Longrightarrow> a \<noteq> NaN \<and> b \<noteq> NaN"
  by (cases a; cases b) auto

lemma sorted_wrt_less_filter_upto: "sorted_wrt (<) (filter P [a..b::int])"
proof -
  have "sorted_wrt (<) [a..b]" by (simp add: sorted_wrt_iff_nth_less)
  thus ?thesis by (rule sorted_wrt_filter)
qed

text \<open>
  C1. For a window of non-negative \<open>left\<close> and \<open>right\<close>, \<open>find_pivot_lows\<close> raises no
  exception and returns, in strictly ascending order (so without duplicates), exactly the
  indices \<open>i\<close> with \<open>left \<le> i < len(series) - right\<close> whose value is strictly less than each
  of the \<open>left\<close> values before and the \<open>right\<close> values after it. No returned index lies
  outside that interval, a value equal to a neighbour in the window never qualifies, and a
  series shorter than \<open>left + right + 1\<close> gives the empty list.
\<close>

theorem find_pivot_lows_exact:
  assumes "0 \<le> left" and "0 \<le> right"
  shows "\<exists>pivots. find_pivot_lows series left right = Inr pivots \<and>
           sorted_wrt (<) pivots \<and> distinct pivots \<and>
           (\<forall>i. i \<in> set pivots \<longleftrightarrow> spec_pivot_low series left right i) \<and>
           (\<forall>i\<in>set pivots. left \<le> i \<and> i < int (length series) - right) \<and>
           (\<forall>i\<in>set pivots. \<forall>j. (1 \<le> j \<and> j \<le> left \<longrightarrow> series ! nat (i - j) \<noteq> series ! nat i) \<and>
                                   (1 \<le> j \<and> j \<le> right \<longrightarrow> series ! nat (i + j) \<noteq> series ! nat i)) \<and>
           (int (length series) < left + right + 1 \<longrightarrow> pivots = [])"
proof -
  let ?ps = "filter (window_min series left right) [left .. int (length series) - right - 1]"
  have eq: "find_pivot_lows series left right = Inr ?ps"
    using assms by (rule find_pivot_lows_filter)
  have srt: "sorted_wrt (<) ?ps" by (rule sorted_wrt_less_filter_upto)
  have dst: "distinct ?ps" by simp
  have mem: "\<And>i. i \<in> set ?ps \<longleftrightarrow> spec_pivot_low series left right i"
    by (auto simp: spec_pivot_low_def)
  have bnd: "\<forall>i\<in>set ?ps. left \<le> i \<and> i < int (length series) - right"
    by auto
  have ties: "\<forall>i\<in>set ?ps. \<forall>j. (1 \<le> j \<and> j \<le> left \<longrightarrow> series ! nat (i - j) \<noteq> series ! nat i) \<and>
                                   (1 \<le> j \<and> j \<le> right \<longrightarrow> series ! nat (i + j) \<noteq> series ! nat i)"
  proof (intro ballI allI conjI impI)
    fix i j assume i: "i \<in> set ?ps" and j: "1 \<le> j \<and> j \<le> left"
    from i have "window_min series left right i" by simp
    with j have "flt (series ! nat i) (series ! nat (i - j))" by (simp add: window_min_def)
    thus "series ! nat (i - j) \<noteq> series ! nat i" using flt_irrefl by metis
  next
    fix i j assume i: "i \<in> set ?ps" and j: "1 \<le> j \<and> j \<le> right"
    from i have "window_min series left right i" by simp
    with j have "flt (series ! nat i) (series ! nat (i + j))" by (simp add: window_min_def)
    thus "series ! nat (i + j) \<noteq> series ! nat i" using flt_irrefl by metis
  qed
  have short: "int (length series) < left + right + 1 \<longrightarrow> ?ps = []"
    by simp
  show ?thesis
    using eq srt dst mem bnd ties short by blast
qed

theorem find_pivot_lows_exact_witness:
  "(0::int) \<le> 1 \<and> find_pivot_lows [Fin 3, Fin 1, Fin 2, Fin 2, Fin 5] 1 1 = Inr [1] \<and>
   spec_pivot_low [Fin 3, Fin 1, Fin 2, Fin 2, Fin 5] 1 1 1 \<and>
   \<not> spec_pivot_low [Fin 3, Fin 1, Fin 2, Fin 2, Fin 5] 1 1 2 \<and>
   (\<exists>pivots. find_pivot_lows [Fin 1, Fin 0] 1 1 = Inr pivots \<and> pivots = [])"
proof -
  have h: "(0::int) \<le> 1" by simp
  have e: "find_pivot_lows [Fin 3, Fin 1, Fin 2, Fin 2, Fin 5] 1 1 = Inr [1]"
    by code_simp
  have e2: "find_pivot_lows [Fin 1, Fin 0] 1 1 = Inr []"
    by code_simp
  from find_pivot_lows_exact[OF h h, of "[Fin 3, Fin 1, Fin 2, Fin 2, Fin 5]"] e
  have m: "\<forall>i. i \<in> set [1] \<longleftrightarrow> spec_pivot_low [Fin 3, Fin 1, Fin 2, Fin 2, Fin 5] 1 1 i"
    by simp
  have "spec_pivot_low [Fin 3, Fin 1, Fin 2, Fin 2, Fin 5] 1 1 1"
    using m[rule_format, of 1] by simp
  moreover have "\<not> spec_pivot_low [Fin 3, Fin 1, Fin 2, Fin 2, Fin 5] 1 1 2"
    using m[rule_format, of 2] by simp
  ultimately show ?thesis using h e e2 by simp
qed

text \<open>
  C7, as the specification states it, fails for the window \<open>(0, 0)\<close>: no comparison is made
  there, so every index is returned, an index whose value is NaN included.
\<close>

theorem find_pivot_lows_nan_counterexample:
  "find_pivot_lows [NaN] 0 0 = Inr [0] \<and> [NaN] ! nat 0 = NaN"
  by code_simp

text \<open>
  C7, amended. For a window of non-negative \<open>left\<close> and \<open>right\<close>, no returned index has a NaN
  among the \<open>left\<close> values before it or the \<open>right\<close> values after it; and when at least one of
  \<open>left\<close>, \<open>right\<close> is positive, the value at a returned index is not NaN either.
\<close>

theorem find_pivot_lows_nan_disqualifies:
  assumes "0 \<le> left" and "0 \<le> right"
    and "find_pivot_lows series left right = Inr pivots" and "i \<in> set pivots"
  shows "(\<forall>j. 1 \<le> j \<and> j \<le> left \<longrightarrow> series ! nat (i - j) \<noteq> NaN) \<and>
         (\<forall>j. 1 \<le> j \<and> j \<le> right \<longrightarrow> series ! nat (i + j) \<noteq> NaN) \<and>
         (0 < left \<or> 0 < right \<longrightarrow> series ! nat i \<noteq> NaN)"
proof -
  have "find_pivot_lows series left right
        = Inr (filter (window_min series left right) [left .. int (length series) - right - 1])"
    using assms(1,2) by (rule find_pivot_lows_filter)
  with assms(3,4) have "i \<in> set (filter (window_min series left right)
        [left .. int (length series) - right - 1])" by simp
  hence p: "window_min series left right i" by simp
  have l: "\<And>j. 1 \<le> j \<and> j \<le> left \<Longrightarrow> flt (series ! nat i) (series ! nat (i - j))"
    using p by (simp add: window_min_def)
  have r: "\<And>j. 1 \<le> j \<and> j \<le> right \<Longrightarrow> flt (series ! nat i) (series ! nat (i + j))"
    using p by (simp add: window_min_def)
  have own: "0 < left \<or> 0 < right \<Longrightarrow> series ! nat i \<noteq> NaN"
  proof (erule disjE)
    assume "0 < left"
    hence "flt (series ! nat i) (series ! nat (i - 1))" using l[of 1] by simp
    thus ?thesis using flt_not_nan by blast
  next
    assume "0 < right"
    hence "flt (series ! nat i) (series ! nat (i + 1))" using r[of 1] by simp
    thus ?thesis using flt_not_nan by blast
  qed
  show ?thesis using l r own flt_not_nan by blast
qed

theorem find_pivot_lows_nan_disqualifies_witness:
  "(0::int) \<le> 1 \<and> find_pivot_lows [NaN, Fin 3, Fin 1, Fin 2, NaN, Fin 0, Fin 4] 1 1 = Inr [2] \<and>
   [NaN, Fin 3, Fin 1, Fin 2, NaN, Fin 0, Fin 4] ! nat 2 \<noteq> NaN"
proof -
  have h: "(0::int) \<le> 1" by simp
  have e: "find_pivot_lows [NaN, Fin 3, Fin 1, Fin 2, NaN, Fin 0, Fin 4] 1 1 = Inr [2]"
    by code_simp
  have m: "(2::int) \<in> set [2]" by simp
  from find_pivot_lows_nan_disqualifies[OF h h e m] h e show ?thesis by simp
qed

section \<open>Bullish divergence: correctness\<close>

lemma iloc_col:
  "0 \<le> k \<Longrightarrow> k < int (length (rows data)) \<Longrightarrow> iloc (col f data) k = Inr (f (rows data ! nat k))"
  by (simp add: iloc_def col_def)

lemma divergence_at_in_range:
  assumes "rsi data = Some oscillator" and "pivots_in_range data oscillator pivot_lows"
    and "1 \<le> i" and "i < int (length pivot_lows)"
  shows "divergence_at data pivot_lows i =
           Inr (spec_divergence data oscillator (pivot_lows ! nat i) (pivot_lows ! nat (i - 1)),
                pivot_lows ! nat i)"
proof -
  let ?c = "pivot_lows ! nat i" and ?p = "pivot_lows ! nat (i - 1)"
  have c: "iloc pivot_lows i = Inr ?c" using assms(3,4) by (simp add: iloc_in_range)
  have p: "iloc pivot_lows (i - 1) = Inr ?p" using assms(3,4) by (simp add: iloc_in_range)
  have cin: "?c \<in> set pivot_lows" using assms(3,4) by (intro nth_mem) auto
  have pin: "?p \<in> set pivot_lows" using assms(3,4) by (intro nth_mem) auto
  have rc: "iloc oscillator ?c = Inr (oscillator ! nat ?c)"
    using assms(2) cin by (intro iloc_in_range) (auto simp: pivots_in_range_def)
  have rp: "iloc oscillator ?p = Inr (oscillator ! nat ?p)"
    using assms(2) pin by (intro iloc_in_range) (auto simp: pivots_in_range_def)
  have lc: "iloc (col Low data) ?c = Inr (Low (rows data ! nat ?c))"
    using assms(2) cin by (intro iloc_col) (auto simp: pivots_in_range_def)
  have lp: "iloc (col Low data) ?p = Inr (Low (rows data ! nat ?p))"
    using assms(2) pin by (intro iloc_col) (auto simp: pivots_in_range_def)
  show ?thesis
    by (simp add: divergence_at_def c p rc rp lc lp rsi_col_def assms(1) ebind_def
        spec_divergence_def)
qed

lemma divergence_loop_filter:
  assumes "rsi data = Some oscillator" and "pivots_in_range data oscillator pivot_lows"
    and "\<forall>i\<in>set is. 1 \<le> i \<and> i < int (length pivot_lows)"
  shows "divergence_loop data pivot_lows is acc =
     Inr (acc @ map (\<lambda>i. pivot_lows ! nat i)
            (filter (\<lambda>i. spec_divergence data oscillator (pivot_lows ! nat i)
                             (pivot_lows ! nat (i - 1))) is))"
  using assms(3)
proof (induction "is" arbitrary: acc)
  case Nil
  then show ?case by simp
next
  case (Cons i rest)
  have a: "divergence_at data pivot_lows i =
           Inr (spec_divergence data oscillator (pivot_lows ! nat i) (pivot_lows ! nat (i - 1)),
                pivot_lows ! nat i)"
    using assms(1,2) Cons.prems by (intro divergence_at_in_range) auto
  show ?case using Cons by (simp add: a ebind_def)
qed

lemma upto_as_map_int: "[1 .. int n - 1] = map int [1..<n]"
proof (induction n)
  case 0
  then show ?case by simp
next
  case (Suc n)
  show ?case
  proof (cases "n = 0")
    case True
    then show ?thesis by simp
  next
    case False
    hence "[1 .. int (Suc n) - 1] = [1 .. int n - 1] @ [int n]"
      using upto_rec2[of 1 "int n"] by simp
    with Suc False show ?thesis by simp
  qed
qed

lemma check_bullish_divergence_filter:
  assumes "rsi data = Some oscillator" and "pivots_in_range data oscillator pivot_lows"
  shows "check_bullish_divergence data pivot_lows =
     Inr (map (\<lambda>i. pivot_lows ! i)
            (filter (\<lambda>i. spec_divergence data oscillator (pivot_lows ! i) (pivot_lows ! (i - 1)))
               [1..<length pivot_lows]))"
proof -
  have "check_bullish_divergence data pivot_lows =
     Inr ([] @ map (\<lambda>i. pivot_lows ! nat i)
            (filter (\<lambda>i. spec_divergence data oscillator (pivot_lows ! nat i)
                             (pivot_lows ! nat (i - 1))) [1 .. int (length pivot_lows) - 1]))"
    unfolding check_bullish_divergence_def using assms
    by (intro divergence_loop_filter) auto
  also have "\<dots> = Inr (map (\<lambda>i. pivot_lows ! i)
            (filter (\<lambda>i. spec_divergence data oscillator (pivot_lows ! i) (pivot_lows ! (i - 1)))
               [1..<length pivot_lows]))"
    unfolding upto_as_map_int
    by (simp add: filter_map comp_def nat_diff_distrib' cong: filter_cong)
  finally show ?thesis .
qed


lemma map_nth_tl: "map (\<lambda>i. xs ! i) [1..<length xs] = tl xs"
  by (rule map_upt_eqI) (simp_all add: nth_tl)

lemma sorted_wrt_nth_less:
  "sorted_wrt (<) (xs::int list) \<Longrightarrow> i < j \<Longrightarrow> j < length xs \<Longrightarrow> xs ! i < xs ! j"
  by (simp add: sorted_wrt_iff_nth_less)

lemma sorted_wrt_nth_inj:
  assumes "sorted_wrt (<) (xs::int list)" "i < length xs" "j < length xs" "xs ! i = xs ! j"
  shows "i = j"
proof (rule ccontr)
  assume "i \<noteq> j"
  then consider "i < j" | "j < i" by linarith
  then show False
  proof cases
    case 1
    with assms show ?thesis using sorted_wrt_nth_less[of xs i j] by simp
  next
    case 2
    with assms show ?thesis using sorted_wrt_nth_less[of xs j i] by simp
  qed
qed

lemma sorted_wrt_map_nth_filter:
  assumes "sorted_wrt (<) (xs::int list)"
  shows "sorted_wrt (<) (map (\<lambda>i. xs ! i) (filter Q [1..<length xs]))"
proof -
  have "sorted_wrt (\<lambda>a b. xs ! a < xs ! b) [1..<length xs]"
  proof (rule sorted_wrt_mono_rel[of _ "(<)"])
    fix a b assume "a \<in> set [1..<length xs]" "b \<in> set [1..<length xs]" "a < b"
    thus "xs ! a < xs ! b" using assms by (simp add: sorted_wrt_nth_less)
  qed simp
  hence "sorted_wrt (\<lambda>a b. xs ! a < xs ! b) (filter Q [1..<length xs])"
    by (rule sorted_wrt_filter)
  thus ?thesis by (simp add: sorted_wrt_map)
qed

lemma sorted_wrt_less_distinct: "sorted_wrt (<) (xs::int list) \<Longrightarrow> distinct xs"
  by (induction xs) auto

text \<open>
  C2. For a frame with an oscillator column and a strictly ascending list of pivot indices
  that are positions of the frame, \<open>check_bullish_divergence\<close> raises no exception, and the
  pivot at position \<open>i \<ge> 1\<close> of the list is flagged if and only if its oscillator value is
  strictly above and its low price strictly below those of the pivot at position \<open>i - 1\<close>.
  The first pivot is never flagged, two adjacent pivots with equal oscillator values give no
  flag, and the output is strictly ascending (so free of duplicates) and a subsequence of the
  pivot list without its first element.
\<close>

theorem check_bullish_divergence_exact:
  assumes "rsi data = Some oscillator"
    and "pivots_in_range data oscillator pivot_lows"
    and "sorted_wrt (<) pivot_lows"
  shows "\<exists>divergences. check_bullish_divergence data pivot_lows = Inr divergences \<and>
     (\<forall>i. 1 \<le> i \<and> i < length pivot_lows \<longrightarrow>
        (pivot_lows ! i \<in> set divergences \<longleftrightarrow>
           spec_divergence data oscillator (pivot_lows ! i) (pivot_lows ! (i - 1)))) \<and>
     (pivot_lows \<noteq> [] \<longrightarrow> hd pivot_lows \<notin> set divergences) \<and>
     (\<forall>i. 1 \<le> i \<and> i < length pivot_lows \<and>
          oscillator ! nat (pivot_lows ! i) = oscillator ! nat (pivot_lows ! (i - 1)) \<longrightarrow>
          pivot_lows ! i \<notin> set divergences) \<and>
     sorted_wrt (<) divergences \<and> distinct divergences \<and>
     subseq divergences (tl pivot_lows)"
proof -
  let ?Q = "\<lambda>i. spec_divergence data oscillator (pivot_lows ! i) (pivot_lows ! (i - 1))"
  let ?ds = "map (\<lambda>i. pivot_lows ! i) (filter ?Q [1..<length pivot_lows])"
  have eq: "check_bullish_divergence data pivot_lows = Inr ?ds"
    using assms(1,2) by (rule check_bullish_divergence_filter)
  have iff: "\<And>i. 1 \<le> i \<and> i < length pivot_lows \<Longrightarrow> (pivot_lows ! i \<in> set ?ds \<longleftrightarrow> ?Q i)"
  proof
    fix i assume i: "1 \<le> i \<and> i < length pivot_lows" and "pivot_lows ! i \<in> set ?ds"
    then obtain k where k: "1 \<le> k" "k < length pivot_lows" "?Q k" "pivot_lows ! i = pivot_lows ! k"
      by auto
    with i have "i = k" using sorted_wrt_nth_inj[OF assms(3), of i k] by simp
    with k show "?Q i" by simp
  next
    fix i assume "1 \<le> i \<and> i < length pivot_lows" and "?Q i"
    thus "pivot_lows ! i \<in> set ?ds" by auto
  qed
  have first: "pivot_lows \<noteq> [] \<longrightarrow> hd pivot_lows \<notin> set ?ds"
  proof (intro impI notI)
    assume ne: "pivot_lows \<noteq> []" and "hd pivot_lows \<in> set ?ds"
    then obtain k where k: "1 \<le> k" "k < length pivot_lows" "hd pivot_lows = pivot_lows ! k"
      by auto
    hence e: "pivot_lows ! 0 = pivot_lows ! k" using ne by (simp add: hd_conv_nth)
    have "0 < length pivot_lows" using ne by simp
    hence "0 = k" using k(2) e by (rule sorted_wrt_nth_inj[OF assms(3)])
    with k show False by simp
  qed
  have ties: "\<forall>i. 1 \<le> i \<and> i < length pivot_lows \<and>
          oscillator ! nat (pivot_lows ! i) = oscillator ! nat (pivot_lows ! (i - 1)) \<longrightarrow>
          pivot_lows ! i \<notin> set ?ds"
  proof (intro allI impI)
    fix i assume h: "1 \<le> i \<and> i < length pivot_lows \<and>
          oscillator ! nat (pivot_lows ! i) = oscillator ! nat (pivot_lows ! (i - 1))"
    hence "\<not> ?Q i" by (simp add: spec_divergence_def fgt_def flt_irrefl)
    with h show "pivot_lows ! i \<notin> set ?ds" using iff[of i] by simp
  qed
  have srt: "sorted_wrt (<) ?ds" using assms(3) by (rule sorted_wrt_map_nth_filter)
  have dst: "distinct ?ds" using srt by (rule sorted_wrt_less_distinct)
  have "subseq ?ds (map (\<lambda>i. pivot_lows ! i) [1..<length pivot_lows])"
    by (intro subseq_map subseq_filter_left)
  hence sub: "subseq ?ds (tl pivot_lows)" by (simp only: map_nth_tl)
  show ?thesis using eq iff first ties srt dst sub by blast
qed

theorem check_bullish_divergence_exact_witness:
  "rsi example_frame = Some [Fin 30, Fin 35, Fin 35, Fin 40] \<and>
   pivots_in_range example_frame [Fin 30, Fin 35, Fin 35, Fin 40] [0, 1, 2, 3] \<and>
   sorted_wrt (<) [0, 1, 2, 3 :: int] \<and>
   check_bullish_divergence example_frame [0, 1, 2, 3] = Inr [1] \<and>
   spec_divergence example_frame [Fin 30, Fin 35, Fin 35, Fin 40] 1 0 \<and>
   \<not> spec_divergence example_frame [Fin 30, Fin 35, Fin 35, Fin 40] 2 1"
proof -
  let ?osc = "[Fin 30, Fin 35, Fin 35, Fin 40]"
  let ?pl = "[0, 1, 2, 3 :: int]"
  have h1: "rsi example_frame = Some ?osc" by (simp add: example_frame_def)
  have h2: "pivots_in_range example_frame ?osc ?pl"
    by (simp add: pivots_in_range_def example_frame_def)
  have h3: "sorted_wrt (<) ?pl" by simp
  have e: "check_bullish_divergence example_frame ?pl = Inr [1]"
    by code_simp
  from check_bullish_divergence_exact[OF h1 h2 h3] e
  have m: "\<forall>i. 1 \<le> i \<and> i < length ?pl \<longrightarrow>
             (?pl ! i \<in> set [1] \<longleftrightarrow> spec_divergence example_frame ?osc (?pl ! i) (?pl ! (i - 1)))"
    by simp
  have "spec_divergence example_frame ?osc 1 0" using m[rule_format, of 1] by simp
  moreover have "\<not> spec_divergence example_frame ?osc 2 1" using m[rule_format, of 2] by simp
  ultimately show ?thesis using h1 h2 h3 e by simp
qed

section \<open>Forward returns of one occurrence\<close>

lemma str_nat_digit: "n < 10 \<Longrightarrow> str_nat n = [digit_char n]"
  by (subst str_nat.simps) simp

lemma digit_char_inj: "a < 10 \<Longrightarrow> b < 10 \<Longrightarrow> digit_char a = digit_char b \<Longrightarrow> a = b"
  by (simp add: digit_char_def char_of_eq_iff take_bit_eq_mod)

lemma day_key_inj:
  assumes "1 \<le> j" "j \<le> 5" "1 \<le> k" "k \<le> 5" "day_key j = day_key k"
  shows "j = k"
proof -
  have "str_int j = [digit_char (nat j)]" using assms by (simp add: str_int_def str_nat_digit)
  moreover have "str_int k = [digit_char (nat k)]" using assms by (simp add: str_int_def str_nat_digit)
  moreover have "str_int j = str_int k" using assms(5) by (simp add: day_key_def)
  ultimately have "digit_char (nat j) = digit_char (nat k)" by simp
  hence "nat j = nat k" using assms by (intro digit_char_inj) auto
  thus ?thesis using assms by simp
qed

lemma returns_loop_foldl:
  assumes "0 \<le> idx" and "\<forall>j\<in>set js. 0 \<le> j"
  shows "returns_loop data idx base_price js (fr, av) =
     Inr (foldl (\<lambda>m j. m(day_key j \<mapsto> spec_slot data idx base_price j)) fr js,
          foldl (\<lambda>a j. if idx + j < int (length (rows data)) then j else a) av js)"
  using assms(2)
proof (induction js arbitrary: fr av)
  case Nil
  then show ?case by simp
next
  case (Cons j js)
  show ?case
  proof (cases "idx + j < int (length (rows data))")
    case True
    hence "iloc (col Close data) (idx + j) = Inr (Close (rows data ! nat (idx + j)))"
      using assms(1) Cons.prems by (intro iloc_col) auto
    with True have "returns_loop data idx base_price (j # js) (fr, av) =
        returns_loop data idx base_price js (fr(day_key j \<mapsto> spec_slot data idx base_price j), j)"
      by (simp add: ebind_def spec_slot_def spec_return_def)
    also have "\<dots> = Inr (foldl (\<lambda>m j. m(day_key j \<mapsto> spec_slot data idx base_price j))
                            (fr(day_key j \<mapsto> spec_slot data idx base_price j)) js,
          foldl (\<lambda>a j. if idx + j < int (length (rows data)) then j else a) j js)"
      using Cons.prems by (intro Cons.IH) simp
    finally show ?thesis using True by (simp only: foldl_Cons if_True)
  next
    case False
    hence "returns_loop data idx base_price (j # js) (fr, av) =
        returns_loop data idx base_price js (fr(day_key j \<mapsto> spec_slot data idx base_price j), av)"
      by (simp add: spec_slot_def)
    also have "\<dots> = Inr (foldl (\<lambda>m j. m(day_key j \<mapsto> spec_slot data idx base_price j))
                            (fr(day_key j \<mapsto> spec_slot data idx base_price j)) js,
          foldl (\<lambda>a j. if idx + j < int (length (rows data)) then j else a) av js)"
      using Cons.prems by (intro Cons.IH) simp
    finally show ?thesis using False by (simp only: foldl_Cons if_False)
  qed
qed

lemma foldl_update_lookup:
  assumes "j \<in> set js" and "\<forall>k\<in>set js. key k = key j \<longrightarrow> k = j"
  shows "(foldl (\<lambda>m k. m(key k \<mapsto> v k)) fr js) (key j) = Some (v j)"
  using assms
proof (induction js rule: rev_induct)
  case Nil
  then show ?case by simp
next
  case (snoc x xs)
  show ?case
  proof (cases "key x = key j")
    case True
    with snoc.prems have "x = j" by simp
    then show ?thesis by simp
  next
    case False
    with snoc.prems have "j \<in> set xs" by auto
    with snoc False show ?thesis by simp
  qed
qed

lemma upto_1_5: "[1..5::int] = [1, 2, 3, 4, 5]"
  by (simp add: upto_rec1)



lemma ebind_Inr: "ebind (Inr a) f = f a"
  by (simp add: ebind_def)

lemma divergence_row_eq:
  assumes "occurrence data target_date idx" and "rsi data = Some series"
  shows "divergence_row symbol data target_date is_target_today use_next_open idx =
     Inr (Some \<lparr>Symbol = symbol,
       Prev_Close = (if 0 < idx \<and> truthy (Close (rows data ! nat (idx - 1)))
                     then Some (round2 (Close (rows data ! nat (idx - 1)))) else None),
       Divergence_Close = round2 (Close (rows data ! nat idx)),
       Open_Next_Day = (if idx + 1 < int (length (rows data))
                        then Some (round2 (Open (rows data ! nat (idx + 1)))) else None),
       RSI = round2 (series ! nat idx),
       Used_Price = (if use_next_open \<and> idx + 1 < int (length (rows data))
                     then ''Open Next Day'' else ''Close''),
       Available_Future_Days =
         foldl (\<lambda>a j. if idx + j < int (length (rows data)) then j else a) 0 [1..5],
       Is_Todays_Signal = is_target_today,
       future_returns =
         foldl (\<lambda>m j. m(day_key j \<mapsto> spec_slot data idx (spec_base_price data idx use_next_open) j))
           Map.empty [1..5]\<rparr>)"
proof -
  from assms have i0: "0 \<le> idx" and i1: "idx < int (length (rows data))"
    and i2: "idx < int (length series)" and d: "bdate (rows data ! nat idx) = target_date"
    by (simp_all add: occurrence_def)
  have a: "iloc (col bdate data) idx = Inr target_date"
    using i0 i1 d by (simp add: iloc_col)
  have b: "rsi_col data = Inr series" using assms(2) by (simp add: rsi_col_def)
  have c: "iloc series idx = Inr (series ! nat idx)" using i0 i2 by (rule iloc_in_range)
  have e: "iloc (col Close data) idx = Inr (Close (rows data ! nat idx))"
    using i0 i1 by (rule iloc_col)
  have f: "0 < idx \<Longrightarrow> iloc (col Close data) (idx - 1) = Inr (Close (rows data ! nat (idx - 1)))"
    using i1 by (intro iloc_col) auto
  have g: "idx + 1 < int (length (rows data)) \<Longrightarrow>
           iloc (col Open data) (idx + 1) = Inr (Open (rows data ! nat (idx + 1)))"
    using i0 by (intro iloc_col) auto
  have sb: "select_base use_next_open
              (if idx + 1 < int (length (rows data)) then Some (Open (rows data ! nat (idx + 1)))
               else None) (Close (rows data ! nat idx))
            = (spec_base_price data idx use_next_open,
               if use_next_open \<and> idx + 1 < int (length (rows data))
               then ''Open Next Day'' else ''Close'')"
    by (simp add: select_base_def spec_base_price_def)
  have on: "ebind (if idx + 1 < int (length (rows data))
                then ebind (iloc (col Open data) (idx + 1)) (\<lambda>p. Inr (Some p))
                else Inr None) K
            = K (if idx + 1 < int (length (rows data)) then Some (Open (rows data ! nat (idx + 1)))
               else None)" for K :: "pyfloat option \<Rightarrow> py_error + divergence_result option"
    using g by (simp add: ebind_def)
  have cp: "ebind (if 0 < idx then ebind (iloc (col Close data) (idx - 1)) (\<lambda>c. Inr (Some c))
                else Inr None) K
            = K (if 0 < idx then Some (Close (rows data ! nat (idx - 1))) else None)"
    for K :: "pyfloat option \<Rightarrow> py_error + divergence_result option"
    using f by (simp add: ebind_def)
  have rl: "returns_loop data idx bp [1..5] (Map.empty, 0) =
     Inr (foldl (\<lambda>m j. m(day_key j \<mapsto> spec_slot data idx bp j)) Map.empty [1..5],
          foldl (\<lambda>a j. if idx + j < int (length (rows data)) then j else a) 0 [1..5])" for bp
    using i0 by (intro returns_loop_foldl) auto
  show ?thesis
    unfolding divergence_row_def
    by (simp add: ebind_Inr a b c e on cp sb rl)
qed



lemma future_returns_lookup:
  assumes "1 \<le> j" "j \<le> 5"
  shows "(foldl (\<lambda>m k. m(day_key k \<mapsto> v k)) fr [1..5]) (day_key j) = Some (v j)"
proof (rule foldl_update_lookup)
  show "j \<in> set [1..5]" using assms by simp
  show "\<forall>k\<in>set [1..5]. day_key k = day_key j \<longrightarrow> k = j"
    using assms by (auto intro: day_key_inj)
qed



lemma day_keys:
  "day_key 1 = ''Day+1 Return (%)''" "day_key 2 = ''Day+2 Return (%)''"
  "day_key 3 = ''Day+3 Return (%)''" "day_key 4 = ''Day+4 Return (%)''"
  "day_key 5 = ''Day+5 Return (%)''"
  by code_simp+

lemma round2_int: "round2 (Fin (of_int k)) = Fin (of_int k)"
proof -
  have "of_int k * (100::real) = of_int (k * 100)" by simp
  hence "round_half_even (of_int k * 100) = k * 100"
    by (simp only: round_half_even_def Let_def floor_of_int) simp
  thus ?thesis by simp
qed

lemma return_finite_iff:
  "is_finite (round2 (fmul (fdiv (fsub c b) b) (Fin 100))) \<longleftrightarrow>
     is_finite c \<and> is_finite b \<and> b \<noteq> Fin 0"
  by (cases c; cases b) (auto simp: is_finite_def)

text \<open>
  C4, as the specification states it, fails: there is no test of the base price. With a base
  price of 0 and a later close of 7 the slot of day 1 is not absent, it holds +Infinity.
\<close>

theorem forward_returns_zero_base_counterexample:
  "spec_base_price zero_close_frame 1 False = Fin 0 \<and>
   divergence_row ''X'' zero_close_frame 2 False False 1 =
     Inr (Some \<lparr>Symbol = ''X'', Prev_Close = Some (Fin 5), Divergence_Close = Fin 0,
       Open_Next_Day = Some (Fin 7), RSI = Fin 40, Used_Price = ''Close'',
       Available_Future_Days = 1, Is_Todays_Signal = False,
       future_returns = [''Day+1 Return (%)'' \<mapsto> Some PInf, ''Day+2 Return (%)'' \<mapsto> None,
         ''Day+3 Return (%)'' \<mapsto> None, ''Day+4 Return (%)'' \<mapsto> None,
         ''Day+5 Return (%)'' \<mapsto> None]\<rparr>)"
proof -
  have h: "occurrence zero_close_frame 2 1"
    by (simp add: occurrence_def zero_close_frame_def flat_bar_def)
  have s: "rsi zero_close_frame = Some [NaN, Fin 40, Fin 50]"
    by (simp add: zero_close_frame_def)
  have b: "spec_base_price zero_close_frame 1 False = Fin 0"
    by (simp add: spec_base_price_def zero_close_frame_def flat_bar_def)
  have l: "length (rows zero_close_frame) = 3" by (simp add: zero_close_frame_def)
  have s1: "spec_slot zero_close_frame 1 (Fin 0) 1 = Some PInf"
    by (simp add: spec_slot_def spec_return_def zero_close_frame_def flat_bar_def)
  have sn: "spec_slot zero_close_frame 1 (Fin 0) 2 = None"
    "spec_slot zero_close_frame 1 (Fin 0) 3 = None"
    "spec_slot zero_close_frame 1 (Fin 0) 4 = None"
    "spec_slot zero_close_frame 1 (Fin 0) 5 = None"
    by (simp_all add: spec_slot_def l)
  have v: "Close (rows zero_close_frame ! nat (1 - 1)) = Fin (of_int 5)"
    "Close (rows zero_close_frame ! nat 1) = Fin (of_int 0)"
    "Open (rows zero_close_frame ! nat (1 + 1)) = Fin (of_int 7)"
    "[NaN, Fin 40, Fin 50] ! nat 1 = Fin (of_int 40)"
    by (simp_all add: zero_close_frame_def flat_bar_def)
  show ?thesis
    unfolding divergence_row_eq[OF h s] b v round2_int upto_1_5
    by (simp add: l s1 sn day_keys)
qed

text \<open>
  C4, amended. For every divergence occurrence the computation of the forward returns raises
  no exception, whatever the base price is. A return slot is absent exactly when \<open>idx + j\<close>
  lies beyond the frame. A slot that is not absent holds a finite number exactly when the
  later close and the base price are finite and the base price is not 0 (the arithmetic on
  finite values being exact); so with a base price of 0 every slot within the frame holds NaN
  or an infinity.
\<close>

theorem forward_returns_no_guard:
  assumes "occurrence data target_date idx"
  shows "\<exists>r. divergence_row symbol data target_date is_target_today use_next_open idx
                = Inr (Some r) \<and>
     (\<forall>j\<in>{1..5}. (future_returns r (day_key j) = Some None)
                     = (\<not> idx + j < int (length (rows data)))) \<and>
     (\<forall>j\<in>{1..5}. idx + j < int (length (rows data)) \<longrightarrow>
        (\<exists>v. future_returns r (day_key j) = Some (Some v) \<and>
             (is_finite v \<longleftrightarrow>
                is_finite (Close (rows data ! nat (idx + j))) \<and>
                is_finite (spec_base_price data idx use_next_open) \<and>
                spec_base_price data idx use_next_open \<noteq> Fin 0)))"
proof -
  from assms obtain series where s: "rsi data = Some series"
    by (auto simp: occurrence_def split: option.splits)
  note eq = divergence_row_eq[OF assms s, of symbol is_target_today use_next_open]
  show ?thesis
    unfolding eq
    by (simp add: future_returns_lookup spec_slot_def spec_return_def return_finite_iff)
qed

theorem forward_returns_no_guard_witness:
  "occurrence zero_close_frame 2 1 \<and>
   (\<exists>r. divergence_row ''X'' zero_close_frame 2 False False 1 = Inr (Some r) \<and>
        future_returns r (day_key 1) \<noteq> Some None \<and>
        future_returns r (day_key 2) = Some None)"
proof -
  have h: "occurrence zero_close_frame 2 1"
    by (simp add: occurrence_def zero_close_frame_def flat_bar_def)
  have l: "length (rows zero_close_frame) = 3" by (simp add: zero_close_frame_def)
  from forward_returns_no_guard[OF h, of "''X''" False False] obtain r where
    r: "divergence_row ''X'' zero_close_frame 2 False False 1 = Inr (Some r)"
    and n: "\<forall>j\<in>{1..5}. (future_returns r (day_key j) = Some None)
                     = (\<not> 1 + j < int (length (rows zero_close_frame)))"
    by blast
  have "future_returns r (day_key 1) \<noteq> Some None" using n[rule_format, of 1] l by simp
  moreover have "future_returns r (day_key 2) = Some None" using n[rule_format, of 2] l by simp
  ultimately show ?thesis using h r by simp
qed


section \<open>The memoised pipeline\<close>

lemma download_data_eq:
  "download_data history today symbol st =
     (case lru_download st symbol of
        Some r \<Rightarrow> (Inr r, st)
      | None \<Rightarrow>
         (case effective_store today st symbol of
            Some r \<Rightarrow> (Inr r, st\<lparr>cache_store := effective_store today st,
                                    cache_date := Some today,
                                    lru_download := (lru_download st)(symbol \<mapsto> r)\<rparr>)
          | None \<Rightarrow>
             if history symbol = []
             then (Inl ValueError, st\<lparr>cache_store := effective_store today st,
                                       cache_date := Some today,
                                       fetch_log := fetch_log st @ [symbol]\<rparr>)
             else (Inr (next_ref st),
                   st\<lparr>cache_store := (effective_store today st)(symbol \<mapsto> next_ref st),
                       cache_date := Some today,
                       fetch_log := fetch_log st @ [symbol],
                       heap := (heap st)(next_ref st := \<lparr>rows = history symbol, rsi = None\<rparr>),
                       next_ref := Suc (next_ref st),
                       lru_download := (lru_download st)(symbol \<mapsto> next_ref st)\<rparr>)))"
  by (auto simp: download_data_def download_data_body_def effective_store_def Let_def
        split: option.splits if_splits)

lemma run_pipeline_eq:
  "run_pipeline rsi_indicator history today symbol st =
     (case download_data history today symbol st of
        (Inl e, st1) \<Rightarrow> (Inl e, st1)
      | (Inr d, st1) \<Rightarrow>
          (ebind (detect_divergences
                    ((heap st1 d)\<lparr>rsi := Some (rsi_indicator rsi_period (col Close (heap st1 d)))\<rparr>))
             (\<lambda>divergences. Inr (d, divergences)),
           st1\<lparr>heap := (heap st1)
                  (d := (heap st1 d)\<lparr>rsi := Some (rsi_indicator rsi_period
                                                    (col Close (heap st1 d)))\<rparr>),
                rsi_calls := Suc (rsi_calls st1)\<rparr>))"
  by (simp add: run_pipeline_def add_rsi_def split: prod.splits sum.splits)

lemma detect_divergences_ok:
  assumes "rsi data = Some series" and "length series = length (rows data)"
  shows "\<exists>divergences. detect_divergences data = Inr divergences"
proof -
  let ?pl = "filter (window_min series pivot_lookback pivot_lookback)
               [pivot_lookback .. int (length series) - pivot_lookback - 1]"
  have p: "find_pivot_lows series pivot_lookback pivot_lookback = Inr ?pl"
    by (rule find_pivot_lows_filter) (simp_all add: pivot_lookback_def)
  have "pivots_in_range data series ?pl"
    using assms(2) by (auto simp: pivots_in_range_def pivot_lookback_def)
  from check_bullish_divergence_filter[OF assms(1) this]
  show ?thesis
    by (simp add: detect_divergences_def rsi_col_def assms(1) ebind_Inr p)
qed

lemma detect_divergences_after_add_rsi:
  assumes "length_preserving rsi_indicator"
  shows "\<exists>divergences. detect_divergences
            (df\<lparr>rsi := Some (rsi_indicator rsi_period (col Close df))\<rparr>) = Inr divergences"
  using assms by (intro detect_divergences_ok[where series =
        "rsi_indicator rsi_period (col Close df)"]) (simp_all add: length_preserving_def col_def)


lemma get_preprocessed_data_hit:
  "lru_preprocessed st symbol = Some v \<Longrightarrow>
     get_preprocessed_data rsi_indicator history today symbol st = (Inr v, st)"
  by (simp add: get_preprocessed_data_def)

lemma download_data_succeeds:
  assumes "history symbol \<noteq> []"
  shows "\<exists>d st1. download_data history today symbol st = (Inr d, st1) \<and>
           (fetch_log st1 = fetch_log st \<or> fetch_log st1 = fetch_log st @ [symbol]) \<and>
           rsi_calls st1 = rsi_calls st"
  using assms by (auto simp: download_data_eq split: option.splits)

lemma run_pipeline_succeeds:
  assumes "length_preserving rsi_indicator" and "history symbol \<noteq> []"
  shows "\<exists>v st1. run_pipeline rsi_indicator history today symbol st = (Inr v, st1) \<and>
           (fetch_log st1 = fetch_log st \<or> fetch_log st1 = fetch_log st @ [symbol]) \<and>
           rsi_calls st1 = Suc (rsi_calls st)"
proof -
  from download_data_succeeds[where history = history and symbol = symbol, OF assms(2)]
  obtain d st1 where
    d: "download_data history today symbol st = (Inr d, st1)"
    and f: "fetch_log st1 = fetch_log st \<or> fetch_log st1 = fetch_log st @ [symbol]"
    and c: "rsi_calls st1 = rsi_calls st"
    by blast
  from detect_divergences_after_add_rsi[OF assms(1)] obtain divergences where
    "detect_divergences ((heap st1 d)\<lparr>rsi := Some (rsi_indicator rsi_period
        (col Close (heap st1 d)))\<rparr>) = Inr divergences"
    by blast
  with d f c show ?thesis by (simp add: run_pipeline_eq ebind_Inr)
qed

lemma get_preprocessed_data_succeeds:
  assumes "length_preserving rsi_indicator" and "history symbol \<noteq> []"
  shows "\<exists>v st1. get_preprocessed_data rsi_indicator history today symbol st = (Inr v, st1) \<and>
           (fetch_log st1 = fetch_log st \<or> fetch_log st1 = fetch_log st @ [symbol]) \<and>
           rsi_calls st1 \<le> Suc (rsi_calls st) \<and>
           lru_preprocessed st1 symbol = Some v"
proof (cases "lru_preprocessed st symbol")
  case (Some v)
  then show ?thesis by (simp add: get_preprocessed_data_hit)
next
  case None
  from run_pipeline_succeeds[where history = history and symbol = symbol, OF assms]
  obtain v st1 where
    "run_pipeline rsi_indicator history today symbol st = (Inr v, st1)"
    "fetch_log st1 = fetch_log st \<or> fetch_log st1 = fetch_log st @ [symbol]"
    "rsi_calls st1 = Suc (rsi_calls st)"
    by blast
  with None show ?thesis by (simp add: get_preprocessed_data_def)
qed

lemma download_data_fails:
  assumes "history symbol = []" and "no_entry today st symbol"
  shows "download_data history today symbol st =
           (Inl ValueError, st\<lparr>cache_store := effective_store today st,
                                 cache_date := Some today,
                                 fetch_log := fetch_log st @ [symbol]\<rparr>)"
proof -
  have "lru_download st symbol = None" and "effective_store today st symbol = None"
    using assms(2) by (simp_all add: no_entry_def effective_store_def)
  with assms(1) show ?thesis by (simp add: download_data_eq)
qed

lemma get_preprocessed_data_fails:
  assumes "history symbol = []" and "no_entry today st symbol"
  shows "get_preprocessed_data rsi_indicator history today symbol st =
           (Inl ValueError, st\<lparr>cache_store := effective_store today st,
                                 cache_date := Some today,
                                 fetch_log := fetch_log st @ [symbol]\<rparr>)"
proof -
  have "lru_preprocessed st symbol = None" using assms(2) by (simp add: no_entry_def)
  thus ?thesis
    by (simp add: get_preprocessed_data_def run_pipeline_eq
          download_data_fails[where history = history and symbol = symbol, OF assms])
qed

lemma no_entry_after_failure:
  assumes "no_entry today st symbol"
  shows "no_entry today (st\<lparr>cache_store := effective_store today st, cache_date := Some today,
                             fetch_log := fl\<rparr>) symbol"
  using assms by (simp add: no_entry_def effective_store_def)

lemma funpow_fixed: "f x = x \<Longrightarrow> (f ^^ n) x = x"
  by (induction n) simp_all

text \<open>
  C6, as the specification states it, fails for a symbol that has no bars: the exception
  leaves both memo tables and the store without an entry, so a second query on the same day
  fetches again.
\<close>

theorem failed_fetch_repeats_counterexample:
  "fst (get_preprocessed_data echo_rsi example_history 17 ''BAD'' init_state) = Inl ValueError \<and>
   fetch_log failed_state = [''BAD''] \<and>
   fst (get_preprocessed_data echo_rsi example_history 17 ''BAD'' failed_state)
     = Inl ValueError \<and>
   fetch_log (snd (get_preprocessed_data echo_rsi example_history 17 ''BAD'' failed_state))
     = [''BAD'', ''BAD'']"
  unfolding failed_state_def by code_simp

text \<open>
  C6, amended. Within one calendar day and for every symbol for which the provider has bars
  (the oscillator column being as long as the series), a query through
  \<open>get_preprocessed_data\<close> succeeds from any state with at most one external fetch and at
  most one computation of the oscillator, and every later query for that symbol on that day,
  however many follow, returns the same memoised result and leaves the state as it is, so
  that nothing is fetched or computed again. A symbol for which the provider has no bars is
  not memoised: a query for it raises after one more fetch and leaves the symbol without an
  entry.
\<close>

theorem same_day_queries_memoized:
  assumes "length_preserving rsi_indicator"
  shows "(history symbol \<noteq> [] \<longrightarrow>
          (\<exists>v st1. get_preprocessed_data rsi_indicator history today symbol st = (Inr v, st1) \<and>
             (fetch_log st1 = fetch_log st \<or> fetch_log st1 = fetch_log st @ [symbol]) \<and>
             rsi_calls st1 \<le> Suc (rsi_calls st) \<and>
             (\<forall>history' n.
                get_preprocessed_data rsi_indicator history' today symbol st1 = (Inr v, st1) \<and>
                ((\<lambda>s. snd (get_preprocessed_data rsi_indicator history' today symbol s)) ^^ n) st1
                  = st1))) \<and>
         (history symbol = [] \<and> no_entry today st symbol \<longrightarrow>
          (\<exists>st1. get_preprocessed_data rsi_indicator history today symbol st
                    = (Inl ValueError, st1) \<and>
             fetch_log st1 = fetch_log st @ [symbol] \<and> no_entry today st1 symbol))"
proof (intro conjI impI)
  assume h: "history symbol \<noteq> []"
  from get_preprocessed_data_succeeds[where history = history and symbol = symbol, OF assms h]
  obtain v st1 where
    r: "get_preprocessed_data rsi_indicator history today symbol st = (Inr v, st1)"
    and f: "fetch_log st1 = fetch_log st \<or> fetch_log st1 = fetch_log st @ [symbol]"
    and c: "rsi_calls st1 \<le> Suc (rsi_calls st)"
    and m: "lru_preprocessed st1 symbol = Some v"
    by blast
  have again: "get_preprocessed_data rsi_indicator history' today symbol st1 = (Inr v, st1)"
    for history'
    using m by (rule get_preprocessed_data_hit)
  have "((\<lambda>s. snd (get_preprocessed_data rsi_indicator history' today symbol s)) ^^ n) st1 = st1"
    for history' n
    by (rule funpow_fixed) (simp add: again)
  with r f c again
  show "\<exists>v st1. get_preprocessed_data rsi_indicator history today symbol st = (Inr v, st1) \<and>
             (fetch_log st1 = fetch_log st \<or> fetch_log st1 = fetch_log st @ [symbol]) \<and>
             rsi_calls st1 \<le> Suc (rsi_calls st) \<and>
             (\<forall>history' n.
                get_preprocessed_data rsi_indicator history' today symbol st1 = (Inr v, st1) \<and>
                ((\<lambda>s. snd (get_preprocessed_data rsi_indicator history' today symbol s)) ^^ n) st1
                  = st1)"
    by blast
next
  assume "history symbol = [] \<and> no_entry today st symbol"
  hence h: "history symbol = []" and n: "no_entry today st symbol" by simp_all
  show "\<exists>st1. get_preprocessed_data rsi_indicator history today symbol st
                    = (Inl ValueError, st1) \<and>
             fetch_log st1 = fetch_log st @ [symbol] \<and> no_entry today st1 symbol"
    using no_entry_after_failure[OF n]
    by (simp add: get_preprocessed_data_fails[where history = history and symbol = symbol,
          OF h n])
qed

lemma length_preserving_echo: "length_preserving echo_rsi"
  by (simp add: length_preserving_def echo_rsi_def)

theorem same_day_queries_memoized_witness:
  "length_preserving echo_rsi \<and> example_history ''GOOD'' \<noteq> [] \<and>
   example_history ''BAD'' = [] \<and> no_entry 17 init_state ''BAD'' \<and>
   (\<exists>v st1. get_preprocessed_data echo_rsi example_history 17 ''GOOD'' init_state = (Inr v, st1) \<and>
      fetch_log st1 = [''GOOD''] \<and>
      get_preprocessed_data echo_rsi example_history 17 ''GOOD'' st1 = (Inr v, st1)) \<and>
   (\<exists>st1. get_preprocessed_data echo_rsi example_history 17 ''BAD'' init_state
             = (Inl ValueError, st1) \<and> fetch_log st1 = [''BAD''])"
proof -
  have g: "example_history ''GOOD'' \<noteq> []" by (simp add: example_history_def good_bars_def)
  have b: "example_history ''BAD'' = []" by (simp add: example_history_def)
  have n: "no_entry 17 init_state ''BAD''" by (simp add: no_entry_def init_state_def)
  have f0: "fetch_log init_state = []" by (simp add: init_state_def)
  have e: "fetch_log (snd (get_preprocessed_data echo_rsi example_history 17 ''GOOD'' init_state))
           = [''GOOD'']"
    by code_simp
  from same_day_queries_memoized[OF length_preserving_echo, of example_history "''GOOD''" 17
      init_state] g
  obtain v st1 where
    r: "get_preprocessed_data echo_rsi example_history 17 ''GOOD'' init_state = (Inr v, st1)"
    and a: "\<forall>history' n.
       get_preprocessed_data echo_rsi history' 17 ''GOOD'' st1 = (Inr v, st1) \<and>
       ((\<lambda>s. snd (get_preprocessed_data echo_rsi history' 17 ''GOOD'' s)) ^^ n) st1 = st1"
    by blast
  from e r have "fetch_log st1 = [''GOOD'']" by simp
  with r a
  have 1: "\<exists>v st1. get_preprocessed_data echo_rsi example_history 17 ''GOOD'' init_state = (Inr v, st1) \<and>
      fetch_log st1 = [''GOOD''] \<and>
      get_preprocessed_data echo_rsi example_history 17 ''GOOD'' st1 = (Inr v, st1)"
    by blast
  from same_day_queries_memoized[OF length_preserving_echo, of example_history "''BAD''" 17
      init_state] b n f0
  have 2: "\<exists>st1. get_preprocessed_data echo_rsi example_history 17 ''BAD'' init_state
             = (Inl ValueError, st1) \<and> fetch_log st1 = [''BAD'']"
    by auto
  from length_preserving_echo g b n 1 2 show ?thesis by blast
qed

text \<open>
  C3 does not hold of the code. \<^verbatim>\<open>download_data\<close> resets its store when the date has changed
  (its comment says "Reset cache daily"), but the \<^verbatim>\<open>lru_cache\<close> placed around it and around
  \<^verbatim>\<open>get_preprocessed_data\<close> answers a symbol seen before without running the body. A query
  on day 18 for a symbol first queried on day 17 returns the entry of day 17: nothing is
  fetched, the store still carries the date 17, and the frame lacks the bar that the provider
  has on day 18.
\<close>

theorem stale_entry_served_next_day:
  "fst (get_preprocessed_data echo_rsi example_history 17 ''GOOD'' init_state) = Inr (0, [11]) \<and>
   get_preprocessed_data echo_rsi next_day_history 18 ''GOOD'' queried_state
     = (Inr (0, [11]), queried_state) \<and>
   fetch_log queried_state = [''GOOD''] \<and> cache_date queried_state = Some 17 \<and>
   rows (heap queried_state 0) = good_bars \<and> next_day_history ''GOOD'' \<noteq> good_bars"
proof -
  have a: "fst (get_preprocessed_data echo_rsi example_history 17 ''GOOD'' init_state)
             = Inr (0, [11])"
    by code_simp
  have m: "lru_preprocessed queried_state ''GOOD'' = Some (0, [11])"
    unfolding queried_state_def by code_simp
  have f: "fetch_log queried_state = [''GOOD'']" unfolding queried_state_def by code_simp
  have d: "cache_date queried_state = Some 17" unfolding queried_state_def by code_simp
  have r: "rows (heap queried_state 0) = good_bars" unfolding queried_state_def by code_simp
  have n: "next_day_history ''GOOD'' \<noteq> good_bars" by (simp add: next_day_history_def)
  from a get_preprocessed_data_hit[OF m, of echo_rsi next_day_history 18] f d r n
  show ?thesis by simp
qed

section \<open>The cached frame\<close>

text \<open>
  C9, as the specification states it, fails: \<^verbatim>\<open>add_rsi\<close> assigns the oscillator column to
  the object it is given, which is the object held in the cache. The cached frame of a symbol
  has no \<^verbatim>\<open>'rsi'\<close> column after the download and has one after a scan on the same day.
\<close>

theorem cached_frame_mutated_counterexample:
  "fst (download_data example_history 17 ''GOOD'' init_state) = Inr 0 \<and>
   cache_date loaded_state = Some 17 \<and> cache_store loaded_state ''GOOD'' = Some 0 \<and>
   rsi (heap loaded_state 0) = None \<and>
   cache_date (snd (scan_for_today_divergences echo_rsi example_history 17 True [''GOOD'']
                      loaded_state)) = Some 17 \<and>
   cache_store (snd (scan_for_today_divergences echo_rsi example_history 17 True [''GOOD'']
                       loaded_state)) ''GOOD'' = Some 0 \<and>
   rsi (heap (snd (scan_for_today_divergences echo_rsi example_history 17 True [''GOOD'']
                     loaded_state)) 0) = Some (map Close good_bars)"
  unfolding loaded_state_def by code_simp

lemma bars_kept_refl: "bars_kept rsi_indicator st st"
  by (simp add: bars_kept_def)

lemma bars_kept_trans:
  assumes "bars_kept rsi_indicator a b" and "bars_kept rsi_indicator b c"
  shows "bars_kept rsi_indicator a c"
proof -
  have n: "next_ref a \<le> next_ref b" "next_ref b \<le> next_ref c"
    using assms by (simp_all add: bars_kept_def)
  have "rows (heap c r) = rows (heap a r) \<and>
        (rsi (heap c r) = rsi (heap a r) \<or>
         rsi (heap c r) = Some (rsi_indicator rsi_period (col Close (heap a r))))"
    if r: "r < next_ref a" for r
  proof -
    from r n have rb: "r < next_ref b" by simp
    from assms(1) r have ab: "rows (heap b r) = rows (heap a r)"
      "rsi (heap b r) = rsi (heap a r) \<or>
       rsi (heap b r) = Some (rsi_indicator rsi_period (col Close (heap a r)))"
      by (simp_all add: bars_kept_def)
    from assms(2) rb have bc: "rows (heap c r) = rows (heap b r)"
      "rsi (heap c r) = rsi (heap b r) \<or>
       rsi (heap c r) = Some (rsi_indicator rsi_period (col Close (heap b r)))"
      by (simp_all add: bars_kept_def)
    from ab(1) have "col Close (heap b r) = col Close (heap a r)" by (simp add: col_def)
    with ab bc show ?thesis by auto
  qed
  with n show ?thesis by (simp add: bars_kept_def)
qed

lemma bars_kept_download_data: "bars_kept rsi_indicator st (snd (download_data history today symbol st))"
  by (simp add: download_data_eq bars_kept_def split: option.splits)

lemma bars_kept_add_rsi:
  "bars_kept rsi_indicator st (snd (add_rsi rsi_indicator data rsi_period st))"
  by (simp add: add_rsi_def bars_kept_def)

lemma bars_kept_run_pipeline:
  "bars_kept rsi_indicator st (snd (run_pipeline rsi_indicator history today symbol st))"
proof (cases "download_data history today symbol st")
  case (Pair r st1)
  have k: "bars_kept rsi_indicator st st1" using bars_kept_download_data[of rsi_indicator st history today symbol] Pair by simp
  show ?thesis
  proof (cases r)
    case (Inl e)
    with Pair k show ?thesis by (simp add: run_pipeline_eq)
  next
    case (Inr d)
    have "bars_kept rsi_indicator st1 (snd (add_rsi rsi_indicator d rsi_period st1))"
      by (rule bars_kept_add_rsi)
    with k have "bars_kept rsi_indicator st (snd (add_rsi rsi_indicator d rsi_period st1))"
      by (rule bars_kept_trans)
    with Pair Inr show ?thesis by (simp add: run_pipeline_eq add_rsi_def)
  qed
qed

lemma bars_kept_lru_preprocessed:
  "bars_kept rsi_indicator st st1 \<Longrightarrow> bars_kept rsi_indicator st (st1\<lparr>lru_preprocessed := m\<rparr>)"
  by (simp add: bars_kept_def)

lemma bars_kept_get_preprocessed_data:
  "bars_kept rsi_indicator st (snd (get_preprocessed_data rsi_indicator history today symbol st))"
proof (cases "lru_preprocessed st symbol")
  case (Some v)
  then show ?thesis by (simp add: get_preprocessed_data_hit bars_kept_refl)
next
  case None
  show ?thesis
    using bars_kept_run_pipeline[of rsi_indicator st history today symbol] None
    by (auto simp: get_preprocessed_data_def bars_kept_lru_preprocessed
          split: prod.splits sum.splits)
qed

lemma today_try_state:
  "snd (snd (today_try rsi_indicator history today symbol results st))
     = snd (run_pipeline rsi_indicator history today symbol st)"
  by (simp add: today_try_def split: prod.splits sum.splits)

lemma results_try_state:
  "snd (snd (results_try rsi_indicator history today target_date use_next_open symbol results st))
     = snd (get_preprocessed_data rsi_indicator history today symbol st)"
  by (simp add: results_try_def split: prod.splits sum.splits)

lemma today_symbols_foldl:
  "today_symbols rsi_indicator history today symbols results st
     = foldl (today_step rsi_indicator history today) (results, st) symbols"
  by (induction symbols arbitrary: results st)
     (auto simp: today_step_def split: prod.splits sum.splits)

lemma bars_kept_today_step:
  "bars_kept rsi_indicator (snd acc) (snd (today_step rsi_indicator history today acc symbol))"
proof -
  have "snd (today_step rsi_indicator history today acc symbol)
        = snd (run_pipeline rsi_indicator history today symbol (snd acc))"
    using today_try_state[of rsi_indicator history today symbol "fst acc" "snd acc"]
    by (auto simp: today_step_def split: prod.splits)
  thus ?thesis by (simp add: bars_kept_run_pipeline)
qed

lemma bars_kept_today_foldl:
  "bars_kept rsi_indicator (snd acc) (snd (foldl (today_step rsi_indicator history today) acc symbols))"
proof (induction symbols arbitrary: acc)
  case Nil
  show ?case by (simp add: bars_kept_refl)
next
  case (Cons s symbols)
  have "bars_kept rsi_indicator (snd acc) (snd (today_step rsi_indicator history today acc s))"
    by (rule bars_kept_today_step)
  moreover have "bars_kept rsi_indicator (snd (today_step rsi_indicator history today acc s))
      (snd (foldl (today_step rsi_indicator history today)
              (today_step rsi_indicator history today acc s) symbols))"
    by (rule Cons.IH)
  ultimately show ?case by (simp add: bars_kept_trans)
qed

lemma bars_kept_scan_for_today:
  "bars_kept rsi_indicator st (snd (scan_for_today_divergences rsi_indicator history today trading_day
                        companies st))"
  using bars_kept_today_foldl[of rsi_indicator "([], st)" history today companies]
  by (simp add: scan_for_today_divergences_def today_symbols_foldl bars_kept_refl)

lemma bars_kept_results_symbols:
  "bars_kept rsi_indicator st (snd (results_symbols rsi_indicator history today target_date use_next_open
                        progress_callback total_n ixs results st))"
proof (induction ixs arbitrary: results st)
  case Nil
  show ?case by (simp add: bars_kept_refl)
next
  case (Cons p ixs)
  obtain i symbol where p: "p = (i, symbol)" by (cases p)
  obtain outcome results1 st1 where
    t: "results_try rsi_indicator history today target_date use_next_open symbol results st
          = (outcome, results1, st1)"
    by (cases "results_try rsi_indicator history today target_date use_next_open symbol
                 results st") auto
  have "st1 = snd (get_preprocessed_data rsi_indicator history today symbol st)"
    using results_try_state[of rsi_indicator history today target_date use_next_open symbol
        results st] t by simp
  hence k: "bars_kept rsi_indicator st st1" by (simp add: bars_kept_get_preprocessed_data)
  have n: "bars_kept rsi_indicator st1 (snd (results_symbols rsi_indicator history today target_date
              use_next_open progress_callback total_n ixs results1 st1))"
    by (rule Cons.IH)
  from k n have "bars_kept rsi_indicator st (snd (results_symbols rsi_indicator history today target_date
              use_next_open progress_callback total_n ixs results1 st1))"
    by (rule bars_kept_trans)
  with k show ?case by (simp add: p t split: sum.splits)
qed

lemma bars_kept_get_bullish_divergence_results:
  "bars_kept rsi_indicator st (snd (get_bullish_divergence_results rsi_indicator history today companies
                        target_date symbols progress_callback use_next_open st))"
  by (simp add: get_bullish_divergence_results_def Let_def bars_kept_results_symbols)

text \<open>
  C9, amended. The bars of a frame (the rows with date, open, high, low, close and volume)
  are never modified once the frame exists. \<open>add_rsi\<close> changes one frame only, the one it is
  given, and of that only the \<^verbatim>\<open>'rsi'\<close> column, which it sets to the oscillator of the close
  column. After \<open>download_data\<close>, \<open>get_preprocessed_data\<close> and after either scan, every
  frame that existed before has the rows it had, and its \<^verbatim>\<open>'rsi'\<close> column is the one it had
  or the oscillator of its close column.
\<close>

theorem fetched_bars_never_modified:
  "(\<forall>r. rows (heap (snd (add_rsi rsi_indicator data period st)) r) = rows (heap st r)) \<and>
   (\<forall>r. r \<noteq> data \<longrightarrow> heap (snd (add_rsi rsi_indicator data period st)) r = heap st r) \<and>
   rsi (heap (snd (add_rsi rsi_indicator data period st)) data)
     = Some (rsi_indicator period (col Close (heap st data))) \<and>
   bars_kept rsi_indicator st (snd (download_data history today symbol st)) \<and>
   bars_kept rsi_indicator st
     (snd (get_preprocessed_data rsi_indicator history today symbol st)) \<and>
   bars_kept rsi_indicator st
     (snd (scan_for_today_divergences rsi_indicator history today trading_day companies st)) \<and>
   bars_kept rsi_indicator st
     (snd (get_bullish_divergence_results rsi_indicator history today companies
             target_date symbols progress_callback use_next_open st))"
proof -
  have "\<forall>r. rows (heap (snd (add_rsi rsi_indicator data period st)) r) = rows (heap st r)"
    and "\<forall>r. r \<noteq> data \<longrightarrow> heap (snd (add_rsi rsi_indicator data period st)) r = heap st r"
    and "rsi (heap (snd (add_rsi rsi_indicator data period st)) data)
          = Some (rsi_indicator period (col Close (heap st data)))"
    by (simp_all add: add_rsi_def)
  thus ?thesis
    by (simp only: bars_kept_download_data bars_kept_get_preprocessed_data
          bars_kept_scan_for_today bars_kept_get_bullish_divergence_results simp_thms)
qed

theorem fetched_bars_never_modified_witness:
  "0 < next_ref loaded_state \<and> rows (heap loaded_state 0) = good_bars \<and>
   rows (heap (snd (scan_for_today_divergences echo_rsi example_history 17 True [''GOOD'']
                      loaded_state)) 0) = good_bars \<and>
   rsi (heap (snd (add_rsi echo_rsi 0 rsi_period loaded_state)) 0) = Some (map Close good_bars)"
proof -
  have n: "next_ref loaded_state = 1" unfolding loaded_state_def by code_simp
  have g: "rows (heap loaded_state 0) = good_bars" unfolding loaded_state_def by code_simp
  note t = fetched_bars_never_modified[where st = loaded_state and history = example_history
      and today = 17 and symbol = "''GOOD''" and rsi_indicator = echo_rsi and data = 0
      and period = rsi_period and trading_day = True and companies = "[''GOOD'']"]
  from t have "bars_kept echo_rsi loaded_state
     (snd (scan_for_today_divergences echo_rsi example_history 17 True [''GOOD''] loaded_state))"
    by blast
  hence "rows (heap (snd (scan_for_today_divergences echo_rsi example_history 17 True
            [''GOOD''] loaded_state)) 0) = rows (heap loaded_state 0)"
    using n by (simp add: bars_kept_def)
  moreover from t have "rsi (heap (snd (add_rsi echo_rsi 0 rsi_period loaded_state)) 0)
      = Some (echo_rsi rsi_period (col Close (heap loaded_state 0)))"
    by blast
  ultimately show ?thesis using n g by (simp add: echo_rsi_def col_def)
qed


section \<open>The scans skip a symbol that fails\<close>












subsection \<open>A symbol without bars\<close>


















end
